theory Spec2Isabelle
  imports Complex_Main
begin

section \<open>The view-lines part: reveal planning, line widths, monospace checks\<close>

text \<open>
  A shallow embedding of the class \<open>ViewLinesWebgl\<close>. A JavaScript \<open>number\<close> is a finite
  double, written as the \<^typ>\<open>real\<close> it denotes; the sum, difference, product and quotient
  of two numbers are rounded to the nearest double, as below. Comparisons, \<open>Math.min\<close>,
  \<open>Math.max\<close>, \<open>Math.abs\<close>, \<open>Math.ceil\<close> and \<open>| 0\<close> are exact. NaN and the infinities are
  not values of the model: a result of magnitude \<open>2^1024\<close> or more, and a division by 0,
  are outside it, so the statements about padded boxes assume a line height different
  from 0, the only divisor of the code besides 2. Line numbers and the results of \<open>| 0\<close>
  and \<open>Math.ceil\<close> are \<^typ>\<open>int\<close>. A private method \<open>_name\<close> is the constant \<open>name\<close>.
\<close>

subsection \<open>Double arithmetic\<close>

text \<open>
  Rounding to binary64, ties to even: the magnitude is scaled by powers of 2 until it has
  53 bits before the point (or until the least exponent, -1074, is reached), and rounded to
  an integer there.
\<close>

definition pow2 :: "int \<Rightarrow> real" where
  "pow2 e = (if 0 \<le> e then 2 ^ nat e else 1 / 2 ^ nat (- e))"

definition roundHalfEven :: "real \<Rightarrow> int" where
  "roundHalfEven q =
     (let n = \<lfloor>q\<rfloor>; r = q - of_int n
      in if r < 1 / 2 then n else if 1 / 2 < r then n + 1 else if even n then n else n + 1)"

function scaleUp :: "real \<Rightarrow> int \<Rightarrow> real \<times> int" where
  "scaleUp x e =
     (if x < 4503599627370496 \<and> - 1074 < e then scaleUp (2 * x) (e - 1) else (x, e))"
  by pat_completeness auto
termination
  by (relation "measure (\<lambda>(x, e). nat (e + 1074))") auto

function scaleDown :: "real \<Rightarrow> int \<Rightarrow> real \<times> int" where
  "scaleDown x e = (if 9007199254740992 \<le> x then scaleDown (x / 2) (e + 1) else (x, e))"
  by pat_completeness auto
termination
proof (relation "measure (\<lambda>(x, e). nat \<lfloor>x\<rfloor>)")
  show "wf (measure (\<lambda>(x, e). nat \<lfloor>x\<rfloor>))"
    by simp
next
  fix x :: real and e :: int
  assume big: "9007199254740992 \<le> x"
  have "x / 2 + 1 \<le> x"
    using big by simp
  then have "\<lfloor>x / 2 + 1\<rfloor> \<le> \<lfloor>x\<rfloor>"
    by (rule floor_mono)
  then have "\<lfloor>x / 2\<rfloor> < \<lfloor>x\<rfloor>"
    by simp
  moreover have "0 < \<lfloor>x\<rfloor>"
    using big by simp
  ultimately show "((x / 2, e + 1), (x, e)) \<in> measure (\<lambda>(x, e). nat \<lfloor>x\<rfloor>)"
    by simp
qed

definition round64 :: "real \<Rightarrow> real" where
  "round64 x =
     (if x = 0 then 0
      else
        (let (u, eu) = scaleUp \<bar>x\<bar> 0;
             (q, e) = scaleDown u eu
         in sgn x * of_int (roundHalfEven q) * pow2 e))"

text \<open>The operators \<open>+\<close>, \<open>-\<close>, \<open>*\<close> and \<open>/\<close> on numbers.\<close>

definition dadd :: "real \<Rightarrow> real \<Rightarrow> real" where
  "dadd x y = round64 (x + y)"

definition dsub :: "real \<Rightarrow> real \<Rightarrow> real" where
  "dsub x y = round64 (x - y)"

definition dmul :: "real \<Rightarrow> real \<Rightarrow> real" where
  "dmul x y = round64 (x * y)"

definition ddiv :: "real \<Rightarrow> real \<Rightarrow> real" where
  "ddiv x y = round64 (x / y)"

text \<open>The literal \<open>0.2\<close>.\<close>

definition double_0_2 :: real where
  "double_0_2 = round64 (2 / 10)"

subsection \<open>Data\<close>

record Viewport =
  vp_top :: real
  vp_height :: real

record Range =
  startLineNumber :: int
  startColumn :: int
  endLineNumber :: int
  endColumn :: int

text \<open>A \<open>Selection\<close> is a \<open>Range\<close> with a direction; only its line numbers are read.\<close>

type_synonym Selection = Range

datatype VerticalRevealType =
  Simple | Center | CenterIfOutsideViewport | Top | Bottom | NearTop | NearTopIfOutsideViewport

datatype CursorSurroundingLinesStyle = StyleDefault | StyleAll

datatype ScrollType = Smooth | Immediate

text \<open>
  The configuration fields of the class, together with the line-to-offset mapping of the
  host layout (\<open>this._context.viewLayout.getVerticalOffsetForLineNumber\<close>).
\<close>

record Config =
  lineHeight :: real
  horizontalScrollbarHeight :: real
  cursorSurroundingLines :: real
  cursorSurroundingLinesStyle :: CursorSurroundingLinesStyle
  stickyScrollEnabled :: bool
  maxNumberStickyLines :: real
  getVerticalOffsetForLineNumber :: "int \<Rightarrow> real"

subsection \<open>The scroll top that reveals a range\<close>

text \<open>
  \<open>x | 0\<close>: truncate towards zero, reduce modulo \<open>2^32\<close>, read as a signed 32-bit value.
\<close>

definition toInt32 :: "real \<Rightarrow> int" where
  "toInt32 x =
     (let n = (if x < 0 then - \<lfloor>- x\<rfloor> else \<lfloor>x\<rfloor>);
          m = n mod 4294967296
      in if 2147483648 \<le> m then m - 4294967296 else m)"

text \<open>
  \<open>_computeMinimumScrolling\<close>: after \<open>| 0\<close> the bounds are 32-bit integers, and their
  differences are exact in doubles.
\<close>

definition computeMinimumScrolling ::
  "real \<Rightarrow> real \<Rightarrow> real \<Rightarrow> real \<Rightarrow> bool \<Rightarrow> bool \<Rightarrow> real" where
  "computeMinimumScrolling viewportStart0 viewportEnd0 boxStart0 boxEnd0 revealAtStart revealAtEnd =
     (let viewportStart = toInt32 viewportStart0;
          viewportEnd = toInt32 viewportEnd0;
          boxStart = toInt32 boxStart0;
          boxEnd = toInt32 boxEnd0;
          viewportLength = viewportEnd - viewportStart;
          boxLength = boxEnd - boxStart
      in if boxLength < viewportLength then
           (if revealAtStart then of_int boxStart
            else if revealAtEnd then of_int (max 0 (boxEnd - viewportLength))
            else if boxStart < viewportStart then of_int boxStart
            else if boxEnd > viewportEnd then of_int (max 0 (boxEnd - viewportLength))
            else of_int viewportStart)
         else of_int boxStart)"

text \<open>
  Lines 771 to 788: the box of the request before padding, as
  \<open>(boxIsSingleRange, boxStartY, boxEndY)\<close>; \<open>None\<close> is the early \<open>return -1\<close>.
  A \<open>null\<close> list of selections is \<open>None\<close>.
\<close>

definition revealBox ::
  "Config \<Rightarrow> Range option \<Rightarrow> Selection list option \<Rightarrow> (bool \<times> real \<times> real) option" where
  "revealBox c rng selections =
     (case selections of
        Some (s0 # rest) \<Rightarrow>
          (let (minLineNumber, maxLineNumber) =
                 foldl (\<lambda>(mn, mx) selection.
                          (min mn (startLineNumber selection), max mx (endLineNumber selection)))
                       (startLineNumber s0, endLineNumber s0) rest
           in Some (False,
                    getVerticalOffsetForLineNumber c minLineNumber,
                    dadd (getVerticalOffsetForLineNumber c maxLineNumber) (lineHeight c)))
      | _ \<Rightarrow>
          (case rng of
             Some r \<Rightarrow>
               Some (True,
                     getVerticalOffsetForLineNumber c (startLineNumber r),
                     dadd (getVerticalOffsetForLineNumber c (endLineNumber r)) (lineHeight c))
           | None \<Rightarrow> None))"

text \<open>Lines 790 to 812: \<open>(paddingTop, paddingBottom)\<close>.\<close>

definition shouldIgnoreScrollOff :: "Config \<Rightarrow> string option \<Rightarrow> bool \<Rightarrow> bool" where
  "shouldIgnoreScrollOff c source minimalReveal =
     ((source = Some ''mouse'' \<or> minimalReveal) \<and> cursorSurroundingLinesStyle c = StyleDefault)"

definition revealPadding ::
  "Config \<Rightarrow> Viewport \<Rightarrow> string option \<Rightarrow> bool \<Rightarrow> VerticalRevealType \<Rightarrow> real \<times> real" where
  "revealPadding c viewport source minimalReveal verticalType =
     (let viewportHeight = vp_height viewport;
          (paddingTop, paddingBottom) =
            (if \<not> shouldIgnoreScrollOff c source minimalReveal then
               (let context = min (ddiv (ddiv viewportHeight (lineHeight c)) 2)
                                  (cursorSurroundingLines c)
                in ((if stickyScrollEnabled c
                     then dmul (max context (maxNumberStickyLines c)) (lineHeight c)
                     else dmul context (lineHeight c)),
                    dmul (max 0 (dsub context 1)) (lineHeight c)))
             else ((if \<not> minimalReveal then lineHeight c else 0), 0))
      in if verticalType = Simple \<or> verticalType = Bottom
         then (paddingTop,
               dadd paddingBottom
                 (if minimalReveal then horizontalScrollbarHeight c else lineHeight c))
         else (paddingTop, paddingBottom))"

text \<open>Lines 814 and 815: the box grown by the padding.\<close>

definition paddedBox ::
  "Config \<Rightarrow> Viewport \<Rightarrow> string option \<Rightarrow> bool \<Rightarrow> Range option \<Rightarrow> Selection list option
     \<Rightarrow> VerticalRevealType \<Rightarrow> (bool \<times> real \<times> real) option" where
  "paddedBox c viewport source minimalReveal rng selections verticalType =
     (case revealBox c rng selections of
        None \<Rightarrow> None
      | Some (boxIsSingleRange, boxStartY, boxEndY) \<Rightarrow>
          (let (paddingTop, paddingBottom) = revealPadding c viewport source minimalReveal verticalType
           in Some (boxIsSingleRange, dsub boxStartY paddingTop, dadd boxEndY paddingBottom)))"

definition computeScrollTopToRevealRange ::
  "Config \<Rightarrow> Viewport \<Rightarrow> string option \<Rightarrow> bool \<Rightarrow> Range option \<Rightarrow> Selection list option
     \<Rightarrow> VerticalRevealType \<Rightarrow> real" where
  "computeScrollTopToRevealRange c viewport source minimalReveal rng selections verticalType =
     (let viewportStartY = vp_top viewport;
          viewportHeight = vp_height viewport;
          viewportEndY = dadd viewportStartY viewportHeight
      in case paddedBox c viewport source minimalReveal rng selections verticalType of
           None \<Rightarrow> - 1
         | Some (boxIsSingleRange, boxStartY, boxEndY) \<Rightarrow>
             if dsub boxEndY boxStartY > viewportHeight then
               (if \<not> boxIsSingleRange then - 1 else boxStartY)
             else if verticalType = NearTop \<or> verticalType = NearTopIfOutsideViewport then
               (if verticalType = NearTopIfOutsideViewport
                   \<and> viewportStartY \<le> boxStartY \<and> boxEndY \<le> viewportEndY
                then viewportStartY
                else (let desiredGapAbove =
                            max (dmul 5 (lineHeight c)) (dmul viewportHeight double_0_2);
                          desiredScrollTop = dsub boxStartY desiredGapAbove;
                          minScrollTop = dsub boxEndY viewportHeight
                      in max minScrollTop desiredScrollTop))
             else if verticalType = Center \<or> verticalType = CenterIfOutsideViewport then
               (if verticalType = CenterIfOutsideViewport
                   \<and> viewportStartY \<le> boxStartY \<and> boxEndY \<le> viewportEndY
                then viewportStartY
                else (let boxMiddleY = ddiv (dadd boxStartY boxEndY) 2
                      in max 0 (dsub boxMiddleY (ddiv viewportHeight 2))))
             else computeMinimumScrolling viewportStartY viewportEndY boxStartY boxEndY
                    (verticalType = Top) (verticalType = Bottom))"

subsection \<open>The reveal request handler\<close>

record ScrollPosition =
  scrollLeft :: real
  scrollTop :: real

text \<open>\<open>INewScrollPosition\<close>: both fields are optional.\<close>

record NewScrollPosition =
  newScrollLeft :: "real option"
  newScrollTop :: "real option"

record ViewRevealRangeRequestEvent =
  e_source :: "string option"
  e_minimalReveal :: bool
  e_range :: "Range option"
  e_selections :: "Selection list option"
  e_verticalType :: VerticalRevealType
  e_revealHorizontal :: bool
  e_scrollType :: ScrollType

text \<open>What the handler reads from the host layout (\<open>this._context.viewLayout\<close>).\<close>

record ViewLayout =
  getFutureViewport :: Viewport
  validateScrollPosition :: "NewScrollPosition \<Rightarrow> ScrollPosition"
  getCurrentScrollTop :: real

text \<open>
  The handler returns its boolean and the \<open>setScrollPosition\<close> call it makes, if any.
\<close>

definition onRevealRangeRequest ::
  "Config \<Rightarrow> ViewLayout \<Rightarrow> ViewRevealRangeRequestEvent
     \<Rightarrow> bool \<times> (ScrollPosition \<times> ScrollType) option" where
  "onRevealRangeRequest c layout e =
     (let desiredScrollTop =
            computeScrollTopToRevealRange c (getFutureViewport layout) (e_source e)
              (e_minimalReveal e) (e_range e) (e_selections e) (e_verticalType e)
      in if desiredScrollTop = - 1 then (False, None)
         else
           (let validated = validateScrollPosition layout
                  \<lparr>newScrollLeft = None, newScrollTop = Some desiredScrollTop\<rparr>;
                newScrollPosition =
                  (if e_revealHorizontal e then
                     (case e_range e of
                        Some r \<Rightarrow>
                          if startLineNumber r \<noteq> endLineNumber r
                          then \<lparr>scrollLeft = 0, scrollTop = scrollTop validated\<rparr>
                          else validated
                      | None \<Rightarrow> validated)
                   else validated);
                scrollTopDelta = \<bar>dsub (getCurrentScrollTop layout) (scrollTop newScrollPosition)\<bar>;
                scrollType = (if scrollTopDelta \<le> lineHeight c then Immediate else e_scrollType e)
            in (True, Some (newScrollPosition, scrollType))))"

subsection \<open>The window of rendered lines\<close>

text \<open>
  An \<open>HTMLElement\<close> as far as the helpers read it: an identity, \<open>nodeType\<close>,
  \<open>className\<close> and \<open>parentElement\<close>. The test \<open>===\<close> on two nodes is equality of
  these values.
\<close>

datatype DomNode =
  DomNode (nodeId: nat) (nodeType: nat) (className: string) (parentElement: "DomNode option")

text \<open>
  Modelled from the spec: the class \<open>ViewLine\<close> (\<open>vs/editor/browser/viewParts/lines/viewLine\<close>)
  is not among the sources. A line is what its accessors return, and a mark that
  \<open>onMonospaceAssumptionsInvalidated\<close> sets (``all windowed lines are marked invalid'').
\<close>

record ViewLine =
  getDomNode :: "DomNode option"
  getWidth :: real
  getWidthIsFast :: bool
  needsMonospaceFontCheck :: bool
  monospaceAssumptionsAreValid :: bool
  getColumnOfNodeOffset :: "int \<Rightarrow> DomNode \<Rightarrow> int \<Rightarrow> int"
  monospaceInvalidated :: bool

text \<open>
  Modelled from the spec: \<open>ViewLine.onMonospaceAssumptionsInvalidated\<close>, which marks the
  line invalid.
\<close>

definition onMonospaceAssumptionsInvalidated :: "ViewLine \<Rightarrow> ViewLine" where
  "onMonospaceAssumptionsInvalidated l = l\<lparr>monospaceInvalidated := True\<rparr>"

datatype error = IllegalLineNumber

text \<open>
  Modelled from the spec: the class \<open>VisibleLinesCollection\<close>
  (\<open>vs/editor/browser/view/viewLayer\<close>) is not among the sources. It ``owns a contiguous
  range of currently materialized lines; exposes start/end line numbers and per-line
  accessors'': the lines from a start line number on. Reading a line outside the window
  throws.
\<close>

record VisibleLinesCollection =
  rendLineNumberStart :: int
  rendLines :: "ViewLine list"

text \<open>
  Modelled from the spec: the accessors \<open>getStartLineNumber\<close>, \<open>getEndLineNumber\<close> and
  \<open>getVisibleLine\<close> of the window.
\<close>

definition getStartLineNumber :: "VisibleLinesCollection \<Rightarrow> int" where
  "getStartLineNumber w = rendLineNumberStart w"

definition getEndLineNumber :: "VisibleLinesCollection \<Rightarrow> int" where
  "getEndLineNumber w = rendLineNumberStart w + int (length (rendLines w)) - 1"

definition getVisibleLine :: "VisibleLinesCollection \<Rightarrow> int \<Rightarrow> error + ViewLine" where
  "getVisibleLine w lineNumber =
     (let lineIndex = lineNumber - rendLineNumberStart w
      in if lineIndex < 0 \<or> int (length (rendLines w)) \<le> lineIndex then Inl IllegalLineNumber
         else Inr (rendLines w ! nat lineIndex))"

text \<open>
  A method call on the line object \<open>getVisibleLine(lineNumber)\<close> that changes the object:
  the line is replaced in the window.
\<close>

definition updateVisibleLine ::
  "VisibleLinesCollection \<Rightarrow> int \<Rightarrow> (ViewLine \<Rightarrow> ViewLine) \<Rightarrow> error + VisibleLinesCollection" where
  "updateVisibleLine w lineNumber f =
     (case getVisibleLine w lineNumber of
        Inl err \<Rightarrow> Inl err
      | Inr l \<Rightarrow>
          Inr (w\<lparr>rendLines := (rendLines w)[nat (lineNumber - rendLineNumberStart w) := f l]\<rparr>))"

text \<open>What the part reads from the view model (\<open>this._context.viewModel\<close>).\<close>

record ViewModel =
  getLineCount :: int
  getLineMaxColumn :: "int \<Rightarrow> int"
  getLineMinColumn :: "int \<Rightarrow> int"

text \<open>
  The state of the part that the width and monospace code reads and writes: the window,
  \<open>_maxLineWidth\<close> (only ever 0 or a \<open>Math.ceil\<close>), and the arguments of the calls of
  \<open>viewLayout.setMaxLineWidth\<close> so far, oldest first.
\<close>

record ViewLines =
  visibleLines :: VisibleLinesCollection
  maxLineWidth :: int
  setMaxLineWidthCalls :: "int list"

subsection \<open>Helpers for others\<close>

text \<open>
  \<open>_getViewLineDomNode\<close>: walk up the parents while the node is an element; the first
  argument is \<open>ViewLine.CLASS_NAME\<close>.
\<close>

fun getViewLineDomNode :: "string \<Rightarrow> DomNode option \<Rightarrow> DomNode option" where
  "getViewLineDomNode CLASS_NAME None = None"
| "getViewLineDomNode CLASS_NAME (Some (DomNode i t cn p)) =
     (if t = 1 then
        (if cn = CLASS_NAME then Some (DomNode i t cn p)
         else getViewLineDomNode CLASS_NAME p)
      else None)"

text \<open>\<open>_getLineNumberFor\<close>: the loop from \<open>lineNumber\<close> to the end of the window.\<close>

function getLineNumberForLoop ::
  "VisibleLinesCollection \<Rightarrow> DomNode \<Rightarrow> int \<Rightarrow> int \<Rightarrow> error + int" where
  "getLineNumberForLoop w domNode lineNumber rendEndLineNumber =
     (if lineNumber \<le> rendEndLineNumber then
        (case getVisibleLine w lineNumber of
           Inl err \<Rightarrow> Inl err
         | Inr line \<Rightarrow>
             if Some domNode = getDomNode line then Inr lineNumber
             else getLineNumberForLoop w domNode (lineNumber + 1) rendEndLineNumber)
      else Inr (- 1))"
  by pat_completeness auto
termination
  by (relation "measure (\<lambda>(w, d, l, e). nat (e + 1 - l))") auto

definition getLineNumberFor :: "VisibleLinesCollection \<Rightarrow> DomNode \<Rightarrow> error + int" where
  "getLineNumberFor w domNode =
     getLineNumberForLoop w domNode (getStartLineNumber w) (getEndLineNumber w)"

record Position =
  p_lineNumber :: int
  p_column :: int

definition getPositionFromDOMInfo ::
  "string \<Rightarrow> ViewModel \<Rightarrow> ViewLines \<Rightarrow> DomNode \<Rightarrow> int \<Rightarrow> error + Position option" where
  "getPositionFromDOMInfo CLASS_NAME vm st spanNode offset =
     (case getViewLineDomNode CLASS_NAME (Some spanNode) of
        None \<Rightarrow> Inr None
      | Some viewLineDomNode \<Rightarrow>
          (case getLineNumberFor (visibleLines st) viewLineDomNode of
             Inl err \<Rightarrow> Inl err
           | Inr lineNumber \<Rightarrow>
               if lineNumber = - 1 then Inr None
               else if lineNumber < 1 \<or> lineNumber > getLineCount vm then Inr None
               else if getLineMaxColumn vm lineNumber = 1
                 then Inr (Some \<lparr>p_lineNumber = lineNumber, p_column = 1\<rparr>)
               else
                 (let rendStartLineNumber = getStartLineNumber (visibleLines st);
                      rendEndLineNumber = getEndLineNumber (visibleLines st)
                  in if lineNumber < rendStartLineNumber \<or> lineNumber > rendEndLineNumber
                     then Inr None
                     else
                       (case getVisibleLine (visibleLines st) lineNumber of
                          Inl err \<Rightarrow> Inl err
                        | Inr line \<Rightarrow>
                            (let column = getColumnOfNodeOffset line lineNumber spanNode offset;
                                 minColumn = getLineMinColumn vm lineNumber
                             in Inr (Some \<lparr>p_lineNumber = lineNumber,
                                           p_column = (if column < minColumn then minColumn
                                                       else column)\<rparr>))))))"

definition getLineWidth :: "ViewLines \<Rightarrow> int \<Rightarrow> error + real" where
  "getLineWidth st lineNumber =
     (let rendStartLineNumber = getStartLineNumber (visibleLines st);
          rendEndLineNumber = getEndLineNumber (visibleLines st)
      in if lineNumber < rendStartLineNumber \<or> lineNumber > rendEndLineNumber then Inr (- 1)
         else (case getVisibleLine (visibleLines st) lineNumber of
                 Inl err \<Rightarrow> Inl err
               | Inr line \<Rightarrow> Inr (getWidth line)))"

subsection \<open>Line widths\<close>

definition ensureMaxLineWidth :: "real \<Rightarrow> ViewLines \<Rightarrow> ViewLines" where
  "ensureMaxLineWidth lineWidth st =
     (let iLineWidth = \<lceil>lineWidth\<rceil>
      in if maxLineWidth st < iLineWidth
         then st\<lparr>maxLineWidth := iLineWidth,
                 setMaxLineWidthCalls := setMaxLineWidthCalls st @ [iLineWidth]\<rparr>
         else st)"

text \<open>
  The loop of \<open>_updateLineWidths\<close>, on \<open>(localMaxLineWidth, allWidthsComputed)\<close>.
\<close>

function updateLineWidthsLoop ::
  "VisibleLinesCollection \<Rightarrow> bool \<Rightarrow> int \<Rightarrow> int \<Rightarrow> real \<times> bool \<Rightarrow> error + real \<times> bool" where
  "updateLineWidthsLoop w fast lineNumber rendEndLineNumber (localMaxLineWidth, allWidthsComputed) =
     (if lineNumber \<le> rendEndLineNumber then
        (case getVisibleLine w lineNumber of
           Inl err \<Rightarrow> Inl err
         | Inr visibleLine \<Rightarrow>
             if fast \<and> \<not> getWidthIsFast visibleLine
             then updateLineWidthsLoop w fast (lineNumber + 1) rendEndLineNumber
                    (localMaxLineWidth, False)
             else updateLineWidthsLoop w fast (lineNumber + 1) rendEndLineNumber
                    (max localMaxLineWidth (getWidth visibleLine), allWidthsComputed))
      else Inr (localMaxLineWidth, allWidthsComputed))"
  by pat_completeness auto
termination
  by (relation "measure (\<lambda>(w, f, l, e, a). nat (e + 1 - l))") auto

definition updateLineWidths' :: "ViewModel \<Rightarrow> bool \<Rightarrow> ViewLines \<Rightarrow> error + bool \<times> ViewLines" where
  "updateLineWidths' vm fast st =
     (let rendStartLineNumber = getStartLineNumber (visibleLines st);
          rendEndLineNumber = getEndLineNumber (visibleLines st)
      in case updateLineWidthsLoop (visibleLines st) fast rendStartLineNumber rendEndLineNumber
                (1, True) of
           Inl err \<Rightarrow> Inl err
         | Inr (localMaxLineWidth, allWidthsComputed) \<Rightarrow>
             (let st1 = (if allWidthsComputed \<and> rendStartLineNumber = 1
                            \<and> rendEndLineNumber = getLineCount vm
                         then st\<lparr>maxLineWidth := 0\<rparr> else st)
              in Inr (allWidthsComputed, ensureMaxLineWidth localMaxLineWidth st1)))"

text \<open>The public \<open>updateLineWidths\<close> and \<open>_updateLineWidthsSlow\<close> drop the boolean.\<close>

definition updateLineWidths :: "ViewModel \<Rightarrow> ViewLines \<Rightarrow> error + ViewLines" where
  "updateLineWidths vm st = map_sum id snd (updateLineWidths' vm False st)"

text \<open>
  \<open>onFlushed\<close>; the first argument is \<open>this._visibleLines.onFlushed\<close>, which returns
  whether to render and changes the window.
\<close>

definition onFlushed ::
  "(VisibleLinesCollection \<Rightarrow> bool \<times> VisibleLinesCollection) \<Rightarrow> ViewLines \<Rightarrow> bool \<times> ViewLines" where
  "onFlushed visibleLinesOnFlushed st =
     (let (shouldRender, w) = visibleLinesOnFlushed (visibleLines st)
      in (shouldRender, st\<lparr>visibleLines := w, maxLineWidth := 0\<rparr>))"

subsection \<open>The monospace check\<close>

text \<open>The first loop, on \<open>(longestLineNumber, longestWidth)\<close>.\<close>

function longestLineLoop ::
  "VisibleLinesCollection \<Rightarrow> int \<Rightarrow> int \<Rightarrow> int \<times> real \<Rightarrow> error + int \<times> real" where
  "longestLineLoop w lineNumber rendEndLineNumber (longestLineNumber, longestWidth) =
     (if lineNumber \<le> rendEndLineNumber then
        (case getVisibleLine w lineNumber of
           Inl err \<Rightarrow> Inl err
         | Inr visibleLine \<Rightarrow>
             if needsMonospaceFontCheck visibleLine then
               (let lineWidth = getWidth visibleLine
                in if lineWidth > longestWidth
                   then longestLineLoop w (lineNumber + 1) rendEndLineNumber (lineNumber, lineWidth)
                   else longestLineLoop w (lineNumber + 1) rendEndLineNumber
                          (longestLineNumber, longestWidth))
             else longestLineLoop w (lineNumber + 1) rendEndLineNumber
                    (longestLineNumber, longestWidth))
      else Inr (longestLineNumber, longestWidth))"
  by pat_completeness auto
termination
  by (relation "measure (\<lambda>(w, l, e, a). nat (e + 1 - l))") auto

text \<open>The second loop: every line of the window is told.\<close>

function invalidateLoop ::
  "VisibleLinesCollection \<Rightarrow> int \<Rightarrow> int \<Rightarrow> error + VisibleLinesCollection" where
  "invalidateLoop w lineNumber rendEndLineNumber =
     (if lineNumber \<le> rendEndLineNumber then
        (case updateVisibleLine w lineNumber onMonospaceAssumptionsInvalidated of
           Inl err \<Rightarrow> Inl err
         | Inr w' \<Rightarrow> invalidateLoop w' (lineNumber + 1) rendEndLineNumber)
      else Inr w)"
  by pat_completeness auto
termination
  by (relation "measure (\<lambda>(w, l, e). nat (e + 1 - l))") auto

text \<open>
  \<open>_checkMonospaceFontAssumptions\<close> returns the new state and the line numbers on which
  \<open>monospaceAssumptionsAreValid\<close> was called.
\<close>

definition checkMonospaceFontAssumptions :: "ViewLines \<Rightarrow> error + ViewLines \<times> int list" where
  "checkMonospaceFontAssumptions st =
     (let rendStartLineNumber = getStartLineNumber (visibleLines st);
          rendEndLineNumber = getEndLineNumber (visibleLines st)
      in case longestLineLoop (visibleLines st) rendStartLineNumber rendEndLineNumber (- 1, - 1) of
           Inl err \<Rightarrow> Inl err
         | Inr (longestLineNumber, longestWidth) \<Rightarrow>
             if longestLineNumber = - 1 then Inr (st, [])
             else
               (case getVisibleLine (visibleLines st) longestLineNumber of
                  Inl err \<Rightarrow> Inl err
                | Inr longest \<Rightarrow>
                    if \<not> monospaceAssumptionsAreValid longest then
                      (case invalidateLoop (visibleLines st) rendStartLineNumber rendEndLineNumber of
                         Inl err \<Rightarrow> Inl err
                       | Inr w' \<Rightarrow> Inr (st\<lparr>visibleLines := w'\<rparr>, [longestLineNumber]))
                    else Inr (st, [longestLineNumber])))"

subsection \<open>Sequences of calls\<close>

text \<open>
  \<open>onZonesChanged\<close> passes the current maximum to the host; the window's own handler only
  answers whether to render.
\<close>

definition onZonesChanged :: "ViewLines \<Rightarrow> ViewLines" where
  "onZonesChanged st = st\<lparr>setMaxLineWidthCalls := setMaxLineWidthCalls st @ [maxLineWidth st]\<rparr>"

text \<open>
  The calls on the part that read or write the width state, each with what it reads from
  the host at that moment: the window's flush handler, the view model. Every other
  handler (lines changed, inserted, deleted, tokens changed) leaves \<open>_maxLineWidth\<close>
  alone and lets the window change: \<open>WindowChanged\<close> with the new window.
\<close>

datatype ViewLinesCall =
  OnFlushed "VisibleLinesCollection \<Rightarrow> bool \<times> VisibleLinesCollection"
| UpdateLineWidths ViewModel bool
| EnsureMaxLineWidth real
| CheckMonospaceFontAssumptions
| OnZonesChanged
| WindowChanged VisibleLinesCollection

fun step :: "ViewLinesCall \<Rightarrow> ViewLines \<Rightarrow> error + ViewLines" where
  "step (OnFlushed f) st = Inr (snd (onFlushed f st))"
| "step (UpdateLineWidths vm fast) st = map_sum id snd (updateLineWidths' vm fast st)"
| "step (EnsureMaxLineWidth lineWidth) st = Inr (ensureMaxLineWidth lineWidth st)"
| "step CheckMonospaceFontAssumptions st = map_sum id fst (checkMonospaceFontAssumptions st)"
| "step OnZonesChanged st = Inr (onZonesChanged st)"
| "step (WindowChanged w) st = Inr (st\<lparr>visibleLines := w\<rparr>)"

fun runCalls :: "ViewLinesCall list \<Rightarrow> ViewLines \<Rightarrow> error + ViewLines" where
  "runCalls [] st = Inr st"
| "runCalls (c # cs) st = (case step c st of Inl err \<Rightarrow> Inl err | Inr st' \<Rightarrow> runCalls cs st')"

fun isOnFlushed :: "ViewLinesCall \<Rightarrow> bool" where
  "isOnFlushed (OnFlushed f) = True"
| "isOnFlushed _ = False"

fun isUpdateLineWidths :: "ViewLinesCall \<Rightarrow> bool" where
  "isUpdateLineWidths (UpdateLineWidths vm fast) = True"
| "isUpdateLineWidths _ = False"

text \<open>The calls after the last \<open>onFlushed\<close> of a sequence (all of them if there is none).\<close>

definition callsSinceFlush :: "ViewLinesCall list \<Rightarrow> ViewLinesCall list" where
  "callsSinceFlush cs = rev (takeWhile (\<lambda>c. \<not> isOnFlushed c) (rev cs))"

text \<open>The line numbers of the window whose line needs the monospace check.\<close>

definition linesNeedingCheck :: "VisibleLinesCollection \<Rightarrow> int list" where
  "linesNeedingCheck w =
     filter (\<lambda>lineNumber. case getVisibleLine w lineNumber of
                             Inl err \<Rightarrow> False
                           | Inr l \<Rightarrow> needsMonospaceFontCheck l)
       [getStartLineNumber w..getEndLineNumber w]"

definition widthOfLine :: "VisibleLinesCollection \<Rightarrow> int \<Rightarrow> real" where
  "widthOfLine w lineNumber =
     (case getVisibleLine w lineNumber of Inl err \<Rightarrow> - 1 | Inr l \<Rightarrow> getWidth l)"

text \<open>
  The state of the first loop of the monospace check before line \<open>k\<close>: nothing found among
  the lines that need the check, or the first of the widest of them.
\<close>

definition longestSoFar :: "VisibleLinesCollection \<Rightarrow> int \<Rightarrow> int \<times> real \<Rightarrow> bool" where
  "longestSoFar w k acc =
     (case acc of (longestLineNumber, longestWidth) \<Rightarrow>
        (longestLineNumber = - 1 \<and> longestWidth = - 1
           \<and> (\<forall>j \<in> set (linesNeedingCheck w). k \<le> j))
        \<or> (longestLineNumber \<in> set (linesNeedingCheck w) \<and> longestLineNumber < k
             \<and> longestWidth = widthOfLine w longestLineNumber
             \<and> (\<forall>j \<in> set (linesNeedingCheck w). j < k \<longrightarrow>
                   widthOfLine w j \<le> longestWidth
                   \<and> (j < longestLineNumber \<longrightarrow> widthOfLine w j < longestWidth))))"

text \<open>The widths that lines report are not negative.\<close>

definition widthsNonNegative :: "VisibleLinesCollection \<Rightarrow> bool" where
  "widthsNonNegative w = list_all (\<lambda>l. 0 \<le> getWidth l) (rendLines w)"

subsection \<open>Example data\<close>

text \<open>Lines of height 20, line 1 at offset 0.\<close>

definition exOffset :: "int \<Rightarrow> real" where
  "exOffset lineNumber = 20 * (of_int lineNumber - 1)"

definition exConfig :: Config where
  "exConfig = \<lparr>lineHeight = 20, horizontalScrollbarHeight = 14, cursorSurroundingLines = 5,
     cursorSurroundingLinesStyle = StyleDefault, stickyScrollEnabled = False,
     maxNumberStickyLines = 5, getVerticalOffsetForLineNumber = exOffset\<rparr>"

definition exViewport :: Viewport where
  "exViewport = \<lparr>vp_top = 1000, vp_height = 500\<rparr>"

definition exSmallViewport :: Viewport where
  "exSmallViewport = \<lparr>vp_top = 0, vp_height = 100\<rparr>"

definition exOddViewport :: Viewport where
  "exOddViewport = \<lparr>vp_top = 0, vp_height = 503\<rparr>"

text \<open>Lines of height 22 with 50 surrounding lines, in a viewport of height 800.\<close>

definition exOffset22 :: "int \<Rightarrow> real" where
  "exOffset22 lineNumber = 22 * (of_int lineNumber - 1)"

definition exConfig22 :: Config where
  "exConfig22 = \<lparr>lineHeight = 22, horizontalScrollbarHeight = 14, cursorSurroundingLines = 50,
     cursorSurroundingLinesStyle = StyleDefault, stickyScrollEnabled = False,
     maxNumberStickyLines = 5, getVerticalOffsetForLineNumber = exOffset22\<rparr>"

definition exViewport800 :: Viewport where
  "exViewport800 = \<lparr>vp_top = 0, vp_height = 800\<rparr>"

text \<open>Lines of height 15 with 1000 surrounding lines, in a viewport from 1999 to 2499.\<close>

definition exOffset15 :: "int \<Rightarrow> real" where
  "exOffset15 lineNumber = 15 * (of_int lineNumber - 1)"

definition exConfig15 :: Config where
  "exConfig15 = \<lparr>lineHeight = 15, horizontalScrollbarHeight = 14, cursorSurroundingLines = 1000,
     cursorSurroundingLinesStyle = StyleDefault, stickyScrollEnabled = False,
     maxNumberStickyLines = 5, getVerticalOffsetForLineNumber = exOffset15\<rparr>"

definition exViewport1999 :: Viewport where
  "exViewport1999 = \<lparr>vp_top = 1999, vp_height = 500\<rparr>"

definition exRange :: "int \<Rightarrow> int \<Rightarrow> Range" where
  "exRange a b = \<lparr>startLineNumber = a, startColumn = 1, endLineNumber = b, endColumn = 1\<rparr>"

definition exValidate :: "NewScrollPosition \<Rightarrow> ScrollPosition" where
  "exValidate p =
     \<lparr>scrollLeft = (case newScrollLeft p of None \<Rightarrow> 0 | Some x \<Rightarrow> max 0 x),
      scrollTop = (case newScrollTop p of None \<Rightarrow> 0 | Some y \<Rightarrow> max 0 y)\<rparr>"

definition exLayout :: ViewLayout where
  "exLayout = \<lparr>getFutureViewport = exViewport, validateScrollPosition = exValidate,
     getCurrentScrollTop = 1000\<rparr>"

definition exEmptyRequest :: ViewRevealRangeRequestEvent where
  "exEmptyRequest = \<lparr>e_source = None, e_minimalReveal = False, e_range = None,
     e_selections = Some [], e_verticalType = Center, e_revealHorizontal = True,
     e_scrollType = Smooth\<rparr>"

definition exOne :: "int \<Rightarrow> int" where
  "exOne lineNumber = 1"

definition exMaxColumn :: "int \<Rightarrow> int" where
  "exMaxColumn lineNumber = 80"

definition exColumn :: "int \<Rightarrow> DomNode \<Rightarrow> int \<Rightarrow> int" where
  "exColumn lineNumber spanNode offset = offset + 1"

definition exLineNode :: "nat \<Rightarrow> DomNode" where
  "exLineNode i = DomNode i 1 ''view-line'' None"

definition exSpan :: "nat \<Rightarrow> DomNode" where
  "exSpan i = DomNode (100 + i) 1 ''mtk1'' (Some (exLineNode i))"

definition exLine :: "nat \<Rightarrow> real \<Rightarrow> bool \<Rightarrow> bool \<Rightarrow> ViewLine" where
  "exLine i width needsCheck valid =
     \<lparr>getDomNode = Some (exLineNode i), getWidth = width, getWidthIsFast = True,
      needsMonospaceFontCheck = needsCheck, monospaceAssumptionsAreValid = valid,
      getColumnOfNodeOffset = exColumn, monospaceInvalidated = False\<rparr>"

definition exWindow :: VisibleLinesCollection where
  "exWindow = \<lparr>rendLineNumberStart = 1,
     rendLines = [exLine 1 300 True True, exLine 2 842 True False, exLine 3 120 False True]\<rparr>"

definition exViewModel :: ViewModel where
  "exViewModel = \<lparr>getLineCount = 3, getLineMaxColumn = exMaxColumn, getLineMinColumn = exOne\<rparr>"

definition exState :: ViewLines where
  "exState = \<lparr>visibleLines = exWindow, maxLineWidth = 0, setMaxLineWidthCalls = []\<rparr>"

definition exFlush :: "VisibleLinesCollection \<Rightarrow> bool \<times> VisibleLinesCollection" where
  "exFlush w = (True, \<lparr>rendLineNumberStart = 1, rendLines = []\<rparr>)"

definition exInvalidated :: ViewLines where
  "exInvalidated = exState\<lparr>visibleLines := exWindow\<lparr>rendLines :=
      map onMonospaceAssumptionsInvalidated (rendLines exWindow)\<rparr>\<rparr>"

definition exWideState :: ViewLines where
  "exWideState = \<lparr>visibleLines = exWindow, maxLineWidth = 900, setMaxLineWidthCalls = [900]\<rparr>"

definition exMeasuredState :: ViewLines where
  "exMeasuredState = \<lparr>visibleLines = exWindow, maxLineWidth = 842, setMaxLineWidthCalls = [900, 842]\<rparr>"

definition exFlushedState :: ViewLines where
  "exFlushedState = \<lparr>visibleLines = \<lparr>rendLineNumberStart = 1, rendLines = []\<rparr>,
     maxLineWidth = 0, setMaxLineWidthCalls = [900, 842]\<rparr>"

text \<open>The loops are unfolded by hand, one step at a time.\<close>

declare scaleUp.simps [simp del]
declare scaleDown.simps [simp del]
declare getLineNumberForLoop.simps [simp del]
declare updateLineWidthsLoop.simps [simp del]
declare longestLineLoop.simps [simp del]
declare invalidateLoop.simps [simp del]

section \<open>Properties of the reveal planner\<close>

lemmas ex_defs = exConfig_def exViewport_def exSmallViewport_def exOddViewport_def exRange_def
  exOffset_def exConfig22_def exOffset22_def exViewport800_def exConfig15_def exOffset15_def
  exViewport1999_def

lemmas planner_defs = paddedBox_def revealBox_def revealPadding_def shouldIgnoreScrollOff_def

lemmas double_defs = dadd_def dsub_def dmul_def ddiv_def double_0_2_def round64_def
  roundHalfEven_def pow2_def scaleUp.simps scaleDown.simps

lemma paddedBox_selections:
  "paddedBox c vp src mr rng (Some (s # ss)) vt = Some (single, bs, be) \<Longrightarrow> \<not> single"
  by (auto simp: paddedBox_def revealBox_def split: prod.splits)

lemma paddedBox_range:
  "selections = None \<or> selections = Some [] \<Longrightarrow>
   paddedBox c vp src mr rng selections vt = Some (single, bs, be) \<Longrightarrow> single \<and> rng \<noteq> None"
  by (auto simp: paddedBox_def revealBox_def split: prod.splits option.splits)

text \<open>
  Claim C1. Let the line height be different from 0 and let the height of the padded box
  of a reveal request, as the code computes it, be above the height of the viewport. If
  the box comes from a non-empty list of selections (so in particular from two or more),
  \<open>_computeScrollTopToRevealRange\<close> returns -1; if there are no selections, and the box
  comes from the single range, it returns the top of the padded box.
\<close>

theorem oversized_box_aborts_or_reveals_top:
  assumes "lineHeight c \<noteq> 0"
    and "paddedBox c viewport source minimalReveal rng selections verticalType
           = Some (boxIsSingleRange, boxStartY, boxEndY)"
    and "dsub boxEndY boxStartY > vp_height viewport"
  shows "(\<forall>ss. selections = Some ss \<and> ss \<noteq> [] \<longrightarrow>
            computeScrollTopToRevealRange c viewport source minimalReveal rng selections verticalType
              = - 1)
       \<and> (selections = None \<or> selections = Some [] \<longrightarrow>
            computeScrollTopToRevealRange c viewport source minimalReveal rng selections verticalType
              = boxStartY)"
proof (intro conjI allI impI)
  fix ss assume "selections = Some ss \<and> ss \<noteq> []"
  then obtain s rest where "selections = Some (s # rest)"
    by (auto simp: neq_Nil_conv)
  then have "\<not> boxIsSingleRange"
    using paddedBox_selections assms(2) by blast
  then show "computeScrollTopToRevealRange c viewport source minimalReveal rng selections
               verticalType = - 1"
    using assms(2,3) by (simp add: computeScrollTopToRevealRange_def)
next
  assume "selections = None \<or> selections = Some []"
  then have "boxIsSingleRange"
    using paddedBox_range assms(2) by blast
  then show "computeScrollTopToRevealRange c viewport source minimalReveal rng selections
               verticalType = boxStartY"
    using assms(2,3) by (simp add: computeScrollTopToRevealRange_def)
qed

text \<open>
  The witness is a box that only rounding makes too high: line 5 with 50 surrounding lines
  of height 22 in a viewport of height 800 is padded to -312.00000000000006 and
  488.00000000000006, a height of 800.0000000000001.
\<close>

theorem oversized_box_witness:
  "lineHeight exConfig22 \<noteq> 0
   \<and> paddedBox exConfig22 exViewport800 None False None (Some [exRange 5 5]) NearTop
       = Some (False, - (5488762045857793 / 17592186044416), 8584986789675009 / 17592186044416)
   \<and> paddedBox exConfig22 exViewport800 None False (Some (exRange 5 5)) None NearTop
       = Some (True, - (5488762045857793 / 17592186044416), 8584986789675009 / 17592186044416)
   \<and> dsub (8584986789675009 / 17592186044416) (- (5488762045857793 / 17592186044416))
       = 7036874417766401 / 8796093022208
   \<and> vp_height exViewport800 < 7036874417766401 / 8796093022208
   \<and> computeScrollTopToRevealRange exConfig22 exViewport800 None False None
        (Some [exRange 5 5]) NearTop = - 1
   \<and> computeScrollTopToRevealRange exConfig22 exViewport800 None False (Some (exRange 5 5))
        None NearTop = - (5488762045857793 / 17592186044416)"
  using oversized_box_aborts_or_reveals_top
      [of exConfig22 exViewport800 None False None "Some [exRange 5 5]" NearTop False
          "- (5488762045857793 / 17592186044416)" "8584986789675009 / 17592186044416"]
    oversized_box_aborts_or_reveals_top
      [of exConfig22 exViewport800 None False "Some (exRange 5 5)" None NearTop True
          "- (5488762045857793 / 17592186044416)" "8584986789675009 / 17592186044416"]
  unfolding planner_defs ex_defs Let_def
  by (simp add: double_defs)

text \<open>
  Claim C2, as stated, fails: with the \<open>Simple\<close> policy and two selections on lines 1 and
  100 in a viewport of height 100, the padded box is -50 to 2050, minimum scrolling on
  these bounds gives the start of the box, -50, and the code returns -1, since the test
  for a box higher than the viewport comes first.
\<close>

theorem minimum_scrolling_counterexample:
  "paddedBox exConfig exSmallViewport None False None (Some [exRange 1 1, exRange 100 100]) Simple
     = Some (False, - 50, 2050)
   \<and> computeMinimumScrolling (vp_top exSmallViewport)
        (dadd (vp_top exSmallViewport) (vp_height exSmallViewport)) (- 50) 2050 False False = - 50
   \<and> computeScrollTopToRevealRange exConfig exSmallViewport None False None
        (Some [exRange 1 1, exRange 100 100]) Simple = - 1"
  unfolding computeScrollTopToRevealRange_def computeMinimumScrolling_def planner_defs ex_defs
    Let_def
  by (simp add: toInt32_def double_defs)

text \<open>
  Claim C2, amended. For the \<open>Simple\<close>, \<open>Top\<close> and \<open>Bottom\<close> policies, a line height
  different from 0 and a padded box whose height, as the code computes it, is not above
  the height of the viewport, the result is that of \<open>_computeMinimumScrolling\<close> on the
  bounds after \<open>| 0\<close>: if the box is shorter than the viewport, the start of the box for
  \<open>Top\<close>, \<open>max(0, boxEnd - viewportLength)\<close> for \<open>Bottom\<close>, the start of the box when it
  starts above the viewport, \<open>max(0, boxEnd - viewportLength)\<close> when it ends below, and
  the viewport start otherwise; if the box is as long as the viewport or longer, the start
  of the box.
\<close>

theorem minimum_scrolling_when_box_fits:
  assumes "lineHeight c \<noteq> 0"
    and "verticalType = Simple \<or> verticalType = Top \<or> verticalType = Bottom"
    and "paddedBox c viewport source minimalReveal rng selections verticalType
           = Some (boxIsSingleRange, boxStartY, boxEndY)"
    and "\<not> dsub boxEndY boxStartY > vp_height viewport"
  shows "computeScrollTopToRevealRange c viewport source minimalReveal rng selections verticalType
           = (let viewportStart = toInt32 (vp_top viewport);
                  viewportEnd = toInt32 (dadd (vp_top viewport) (vp_height viewport));
                  boxStart = toInt32 boxStartY;
                  boxEnd = toInt32 boxEndY;
                  viewportLength = viewportEnd - viewportStart
              in of_int
                (if boxEnd - boxStart < viewportLength then
                   (if verticalType = Top then boxStart
                    else if verticalType = Bottom then max 0 (boxEnd - viewportLength)
                    else if boxStart < viewportStart then boxStart
                    else if boxEnd > viewportEnd then max 0 (boxEnd - viewportLength)
                    else viewportStart)
                 else boxStart))"
  using assms
  by (auto simp: computeScrollTopToRevealRange_def computeMinimumScrolling_def Let_def)

text \<open>
  The witnesses: the reveal at the bottom with the scrollbar's height as padding (1534),
  and a box whose padded top is rounded to 49.99999999999997, which \<open>| 0\<close> makes 49.
\<close>

theorem minimum_scrolling_witness:
  "lineHeight exConfig \<noteq> 0 \<and> lineHeight exConfig15 \<noteq> 0
   \<and> paddedBox exConfig exViewport None True (Some (exRange 101 101)) None Bottom
       = Some (True, 2000, 2034)
   \<and> \<not> dsub 2034 2000 > vp_height exViewport
   \<and> computeScrollTopToRevealRange exConfig exViewport None True (Some (exRange 101 101)) None
        Bottom = 1534
   \<and> paddedBox exConfig15 exViewport1999 None False None (Some [exRange 21 21]) Top
       = Some (False, 1759218604441599 / 35184372088832, 550)
   \<and> \<not> dsub 550 (1759218604441599 / 35184372088832) > vp_height exViewport1999
   \<and> computeScrollTopToRevealRange exConfig15 exViewport1999 None False None
        (Some [exRange 21 21]) Top = 49"
  using minimum_scrolling_when_box_fits
      [of exConfig Bottom exViewport None True "Some (exRange 101 101)" None True 2000 2034]
    minimum_scrolling_when_box_fits
      [of exConfig15 Top exViewport1999 None False None "Some [exRange 21 21]" False
          "1759218604441599 / 35184372088832" 550]
  unfolding planner_defs ex_defs Let_def
  by (simp add: toInt32_def double_defs)

text \<open>
  Claim C3. A request with no range and with no (or an empty list of) selections makes
  \<open>_computeScrollTopToRevealRange\<close> return -1, for every viewport, source, minimal-reveal
  flag and vertical reveal type; then \<open>onRevealRangeRequest\<close> returns false and sets no
  scroll position.
\<close>

theorem reveal_without_box_aborts:
  assumes "rng = None" and "selections = None \<or> selections = Some []"
  shows "computeScrollTopToRevealRange c viewport source minimalReveal rng selections verticalType
           = - 1
       \<and> onRevealRangeRequest c layout
            \<lparr>e_source = source, e_minimalReveal = minimalReveal, e_range = rng,
             e_selections = selections, e_verticalType = verticalType,
             e_revealHorizontal = revealHorizontal, e_scrollType = scrollType\<rparr> = (False, None)"
proof -
  have "revealBox c rng selections = None"
    using assms by (auto simp: revealBox_def)
  then have "computeScrollTopToRevealRange c vp source minimalReveal rng selections verticalType
               = - 1" for vp
    by (simp add: computeScrollTopToRevealRange_def paddedBox_def)
  then show ?thesis
    by (simp add: onRevealRangeRequest_def)
qed

theorem reveal_without_box_witness:
  "e_range exEmptyRequest = None \<and> e_selections exEmptyRequest = Some []
   \<and> computeScrollTopToRevealRange exConfig exViewport None False None (Some []) Center = - 1
   \<and> onRevealRangeRequest exConfig exLayout exEmptyRequest = (False, None)"
  using reveal_without_box_aborts
      [of None "Some []" exConfig exViewport None False Center exLayout True Smooth]
  by (simp add: exEmptyRequest_def)

text \<open>
  Why fitting is a condition of its own in doubles: a viewport at \<open>2^53\<close> of height 3 ends,
  after rounding, at \<open>2^53 + 4\<close>, so a box from \<open>2^53\<close> to \<open>2^53 + 4\<close> lies inside it and
  is higher than it.
\<close>

lemma box_inside_viewport_may_not_fit:
  "dadd 9007199254740992 3 = 9007199254740996
   \<and> dsub 9007199254740996 9007199254740992 = 4"
  by (simp add: double_defs)

text \<open>
  Claim C4. For \<open>CenterIfOutsideViewport\<close> and \<open>NearTopIfOutsideViewport\<close> and a line height
  different from 0: when the padded box fits in the viewport (its height, as the code
  computes it, is not above the viewport's) and lies inside it (between the viewport's
  top and the viewport's end, the rounded sum of top and height), the result is the top
  of the viewport. With exact sums and differences a box inside the viewport fits it; in
  doubles this is one more condition, the one the claim states.
\<close>

theorem visible_box_no_movement:
  assumes "lineHeight c \<noteq> 0"
    and "verticalType = CenterIfOutsideViewport \<or> verticalType = NearTopIfOutsideViewport"
    and "paddedBox c viewport source minimalReveal rng selections verticalType
           = Some (boxIsSingleRange, boxStartY, boxEndY)"
    and "\<not> dsub boxEndY boxStartY > vp_height viewport"
    and "vp_top viewport \<le> boxStartY"
    and "boxEndY \<le> dadd (vp_top viewport) (vp_height viewport)"
  shows "computeScrollTopToRevealRange c viewport source minimalReveal rng selections verticalType
           = vp_top viewport"
  using assms by (auto simp: computeScrollTopToRevealRange_def)

theorem visible_box_witness:
  "lineHeight exConfig \<noteq> 0
   \<and> paddedBox exConfig exViewport None True (Some (exRange 61 61)) None NearTopIfOutsideViewport
       = Some (True, 1200, 1220)
   \<and> \<not> dsub 1220 1200 > vp_height exViewport
   \<and> vp_top exViewport \<le> 1200 \<and> 1220 \<le> dadd (vp_top exViewport) (vp_height exViewport)
   \<and> computeScrollTopToRevealRange exConfig exViewport None True (Some (exRange 61 61)) None
        NearTopIfOutsideViewport = 1000"
  using visible_box_no_movement
      [of exConfig NearTopIfOutsideViewport exViewport None True "Some (exRange 61 61)" None
          True 1200 1220]
  unfolding planner_defs ex_defs Let_def
  by (simp add: double_defs)

text \<open>
  Claim C5. For \<open>NearTop\<close> and \<open>NearTopIfOutsideViewport\<close> and a line height different
  from 0: when the padded box fits in the viewport (its height, as the code computes it,
  is not above the viewport's) and the already-visible case does not apply, the result is
  \<open>max(boxEnd - viewportHeight, boxStart - gap)\<close> with
  \<open>gap = max(5 * lineHeight, viewportHeight * 0.2)\<close>, each operation rounded as a double.
\<close>

theorem near_top_scroll_top:
  assumes "lineHeight c \<noteq> 0"
    and "verticalType = NearTop \<or> verticalType = NearTopIfOutsideViewport"
    and "paddedBox c viewport source minimalReveal rng selections verticalType
           = Some (boxIsSingleRange, boxStartY, boxEndY)"
    and "\<not> dsub boxEndY boxStartY > vp_height viewport"
    and "\<not> (verticalType = NearTopIfOutsideViewport \<and> vp_top viewport \<le> boxStartY
             \<and> boxEndY \<le> dadd (vp_top viewport) (vp_height viewport))"
  shows "computeScrollTopToRevealRange c viewport source minimalReveal rng selections verticalType
           = max (dsub boxEndY (vp_height viewport))
                 (dsub boxStartY
                    (max (dmul 5 (lineHeight c)) (dmul (vp_height viewport) double_0_2)))"
  using assms by (auto simp: computeScrollTopToRevealRange_def Let_def)

text \<open>
  The witnesses: a box below the viewport (1900), and a viewport of height 503, whose fifth
  part is rounded to 100.60000000000001.
\<close>

theorem near_top_witness:
  "lineHeight exConfig \<noteq> 0
   \<and> paddedBox exConfig exViewport None True (Some (exRange 101 101)) None
       NearTopIfOutsideViewport = Some (True, 2000, 2020)
   \<and> \<not> dsub 2020 2000 > vp_height exViewport
   \<and> \<not> (2020 \<le> dadd (vp_top exViewport) (vp_height exViewport))
   \<and> computeScrollTopToRevealRange exConfig exViewport None True (Some (exRange 101 101)) None
        NearTopIfOutsideViewport = 1900
   \<and> paddedBox exConfig exOddViewport None True (Some (exRange 1 1)) None NearTop
       = Some (True, 0, 20)
   \<and> \<not> dsub 20 0 > vp_height exOddViewport
   \<and> computeScrollTopToRevealRange exConfig exOddViewport None True (Some (exRange 1 1)) None
        NearTop = - (7079095664272999 / 70368744177664)"
  using near_top_scroll_top
      [of exConfig NearTopIfOutsideViewport exViewport None True "Some (exRange 101 101)" None
          True 2000 2020]
    near_top_scroll_top
      [of exConfig NearTop exOddViewport None True "Some (exRange 1 1)" None True 0 20]
  unfolding planner_defs ex_defs Let_def
  by (simp add: double_defs)




section \<open>Properties of the window code\<close>

lemmas window_defs = exState_def exWindow_def exLine_def exLineNode_def exSpan_def exViewModel_def
  exMaxColumn_def exOne_def exColumn_def getStartLineNumber_def getEndLineNumber_def getVisibleLine_def

lemma getVisibleLine_in_window:
  "getStartLineNumber w \<le> k \<Longrightarrow> k \<le> getEndLineNumber w \<Longrightarrow>
   getVisibleLine w k = Inr (rendLines w ! nat (k - rendLineNumberStart w))"
  by (simp add: getVisibleLine_def getStartLineNumber_def getEndLineNumber_def Let_def)

lemma ensureMaxLineWidth_ge_old: "maxLineWidth st \<le> maxLineWidth (ensureMaxLineWidth lineWidth st)"
  by (simp add: ensureMaxLineWidth_def Let_def)

lemma ensureMaxLineWidth_ge_new: "\<lceil>lineWidth\<rceil> \<le> maxLineWidth (ensureMaxLineWidth lineWidth st)"
  by (simp add: ensureMaxLineWidth_def Let_def)

lemma updateLineWidthsLoop_total:
  "getStartLineNumber w \<le> k \<Longrightarrow> e \<le> getEndLineNumber w \<Longrightarrow>
   \<exists>m a. updateLineWidthsLoop w fast k e (m0, a0) = Inr (m, a) \<and> m0 \<le> m"
proof (induction w fast k e "(m0, a0)" arbitrary: m0 a0 rule: updateLineWidthsLoop.induct)
  case (1 w fast k e m0 a0)
  show ?case
  proof (cases "k \<le> e")
    case False
    then show ?thesis by (simp add: updateLineWidthsLoop.simps)
  next
    case True
    with 1(3,4) obtain l where l: "getVisibleLine w k = Inr l"
      using getVisibleLine_in_window [of w k] by auto
    show ?thesis
    proof (cases "fast \<and> \<not> getWidthIsFast l")
      case skip: True
      from 1(1) [OF True l skip] 1(3,4)
      obtain m a where "updateLineWidthsLoop w fast (k + 1) e (m0, False) = Inr (m, a)" "m0 \<le> m"
        by auto
      then show ?thesis using True l skip by (subst updateLineWidthsLoop.simps) simp
    next
      case noskip: False
      from 1(2) [OF True l noskip] 1(3,4)
      obtain m a where "updateLineWidthsLoop w fast (k + 1) e (max m0 (getWidth l), a0) = Inr (m, a)"
         "max m0 (getWidth l) \<le> m"
        by auto
      then show ?thesis using True l noskip by (subst updateLineWidthsLoop.simps) auto
    qed
  qed
qed

lemma updateLineWidths'_result:
  "\<exists>m a. updateLineWidthsLoop (visibleLines st) fast (getStartLineNumber (visibleLines st))
            (getEndLineNumber (visibleLines st)) (1, True) = Inr (m, a) \<and> 1 \<le> m
     \<and> updateLineWidths' vm fast st
         = Inr (a, ensureMaxLineWidth m
                     (if a \<and> getStartLineNumber (visibleLines st) = 1
                         \<and> getEndLineNumber (visibleLines st) = getLineCount vm
                      then st\<lparr>maxLineWidth := 0\<rparr> else st))"
proof -
  obtain m a where "updateLineWidthsLoop (visibleLines st) fast (getStartLineNumber (visibleLines st))
            (getEndLineNumber (visibleLines st)) (1, True) = Inr (m, a)" "1 \<le> m"
    using updateLineWidthsLoop_total [of "visibleLines st" "getStartLineNumber (visibleLines st)"
        "getEndLineNumber (visibleLines st)" fast 1 True] by auto
  then show ?thesis
    by (simp add: updateLineWidths'_def Let_def)
qed

lemma updateLineWidths'_ge_1:
  "\<exists>a st'. updateLineWidths' vm fast st = Inr (a, st') \<and> 1 \<le> maxLineWidth st'"
proof -
  obtain m a where m: "1 \<le> m" and
    r: "updateLineWidths' vm fast st
         = Inr (a, ensureMaxLineWidth m
                     (if a \<and> getStartLineNumber (visibleLines st) = 1
                         \<and> getEndLineNumber (visibleLines st) = getLineCount vm
                      then st\<lparr>maxLineWidth := 0\<rparr> else st))" (is "_ = Inr (a, ?st')")
    using updateLineWidths'_result [of st fast vm] by blast
  have "1 \<le> \<lceil>m\<rceil>" using m by linarith
  also have "\<dots> \<le> maxLineWidth ?st'" by (rule ensureMaxLineWidth_ge_new)
  finally show ?thesis using r by blast
qed

lemma getLineNumberForLoop_result:
  "getStartLineNumber w \<le> k \<Longrightarrow> e \<le> getEndLineNumber w \<Longrightarrow>
   \<exists>r. getLineNumberForLoop w d k e = Inr r \<and> (r = - 1 \<or> (k \<le> r \<and> r \<le> e))"
proof (induction w d k e rule: getLineNumberForLoop.induct)
  case (1 w d k e)
  show ?case
  proof (cases "k \<le> e")
    case False
    then show ?thesis by (simp add: getLineNumberForLoop.simps)
  next
    case True
    with 1(2,3) obtain l where l: "getVisibleLine w k = Inr l"
      using getVisibleLine_in_window [of w k] by auto
    show ?thesis
    proof (cases "Some d = getDomNode l")
      case found: True
      then show ?thesis using True l by (simp add: getLineNumberForLoop.simps)
    next
      case notfound: False
      from 1(1) [OF True l notfound] 1(2,3)
      obtain r where "getLineNumberForLoop w d (k + 1) e = Inr r" "r = - 1 \<or> (k + 1 \<le> r \<and> r \<le> e)"
        by auto
      then show ?thesis using True l notfound by (subst getLineNumberForLoop.simps) auto
    qed
  qed
qed

lemma getLineNumberFor_result:
  "\<exists>r. getLineNumberFor w d = Inr r
     \<and> (r = - 1 \<or> (getStartLineNumber w \<le> r \<and> r \<le> getEndLineNumber w))"
  unfolding getLineNumberFor_def
  using getLineNumberForLoop_result [of w "getStartLineNumber w" "getEndLineNumber w" d] by simp

text \<open>
  Claim outside_window_not_found. \<open>getPositionFromDOMInfo\<close> never throws, and when the line number that
  \<open>_getLineNumberFor\<close> resolves lies outside the rendered window (it can only be the -1 of
  ``not found'', the search runs over the window), the result is null. \<open>getLineWidth\<close>
  returns -1 for every line number outside the window.
\<close>

theorem outside_window_not_found:
  "(\<exists>p. getPositionFromDOMInfo CLASS_NAME vm st spanNode offset = Inr p)
   \<and> (getViewLineDomNode CLASS_NAME (Some spanNode) = Some viewLineDomNode
        \<and> getLineNumberFor (visibleLines st) viewLineDomNode = Inr lineNumber
        \<and> (lineNumber < getStartLineNumber (visibleLines st)
             \<or> lineNumber > getEndLineNumber (visibleLines st))
      \<longrightarrow> getPositionFromDOMInfo CLASS_NAME vm st spanNode offset = Inr None)
   \<and> (k < getStartLineNumber (visibleLines st) \<or> k > getEndLineNumber (visibleLines st)
      \<longrightarrow> getLineWidth st k = Inr (- 1))"
proof (intro conjI impI)
  show "\<exists>p. getPositionFromDOMInfo CLASS_NAME vm st spanNode offset = Inr p"
  proof (cases "getViewLineDomNode CLASS_NAME (Some spanNode)")
    case None
    then show ?thesis by (simp add: getPositionFromDOMInfo_def)
  next
    case (Some d)
    obtain r where r: "getLineNumberFor (visibleLines st) d = Inr r"
      "r = - 1 \<or> (getStartLineNumber (visibleLines st) \<le> r \<and> r \<le> getEndLineNumber (visibleLines st))"
      using getLineNumberFor_result by blast
    show ?thesis
    proof (cases "getStartLineNumber (visibleLines st) \<le> r \<and> r \<le> getEndLineNumber (visibleLines st)")
      case True
      then obtain l where "getVisibleLine (visibleLines st) r = Inr l"
        using getVisibleLine_in_window by blast
      then show ?thesis using Some r(1)
        by (simp add: getPositionFromDOMInfo_def Let_def)
    next
      case False
      then have "r = - 1" using r(2) by blast
      then show ?thesis using Some r(1)
        by (simp add: getPositionFromDOMInfo_def)
    qed
  qed
next
  assume a: "getViewLineDomNode CLASS_NAME (Some spanNode) = Some viewLineDomNode
        \<and> getLineNumberFor (visibleLines st) viewLineDomNode = Inr lineNumber
        \<and> (lineNumber < getStartLineNumber (visibleLines st)
             \<or> lineNumber > getEndLineNumber (visibleLines st))"
  then have "lineNumber = - 1"
    using getLineNumberFor_result [of "visibleLines st" viewLineDomNode] by auto
  then show "getPositionFromDOMInfo CLASS_NAME vm st spanNode offset = Inr None"
    using a by (simp add: getPositionFromDOMInfo_def)
next
  assume "k < getStartLineNumber (visibleLines st) \<or> k > getEndLineNumber (visibleLines st)"
  then show "getLineWidth st k = Inr (- 1)"
    by (auto simp: getLineWidth_def Let_def)
qed

theorem outside_window_witness:
  "getViewLineDomNode ''view-line'' (Some (exSpan 7)) = Some (exLineNode 7)
   \<and> getLineNumberFor (visibleLines exState) (exLineNode 7) = Inr (- 1)
   \<and> - 1 < getStartLineNumber (visibleLines exState)
   \<and> getPositionFromDOMInfo ''view-line'' exViewModel exState (exSpan 7) 0 = Inr None
   \<and> 4 > getEndLineNumber (visibleLines exState)
   \<and> getLineWidth exState 4 = Inr (- 1)"
  using outside_window_not_found [where CLASS_NAME = "''view-line''" and vm = exViewModel and st = exState
      and spanNode = "exSpan 7" and offset = 0 and viewLineDomNode = "exLineNode 7"
      and lineNumber = "- 1" and k = 4]
  by (simp add: getLineNumberFor_def getLineNumberForLoop.simps window_defs)

lemma linesNeedingCheck_iff:
  "k \<in> set (linesNeedingCheck w) \<longleftrightarrow>
     getStartLineNumber w \<le> k \<and> k \<le> getEndLineNumber w
     \<and> needsMonospaceFontCheck (rendLines w ! nat (k - rendLineNumberStart w))"
  using getVisibleLine_in_window [of w k]
  by (auto simp: linesNeedingCheck_def)

lemma widthOfLine_in_window:
  "getStartLineNumber w \<le> k \<Longrightarrow> k \<le> getEndLineNumber w \<Longrightarrow>
   widthOfLine w k = getWidth (rendLines w ! nat (k - rendLineNumberStart w))"
  by (simp add: widthOfLine_def getVisibleLine_in_window)

lemma longestSoFar_step_longer:
  assumes "longestSoFar w k (bl, bw)" "k \<in> set (linesNeedingCheck w)" "widthOfLine w k > bw"
  shows "longestSoFar w (k + 1) (k, widthOfLine w k)"
  using assms unfolding longestSoFar_def
  by (auto simp: less_le_trans dest: order.strict_trans1 order.strict_trans2)

lemma longestSoFar_step_shorter:
  assumes "longestSoFar w k (bl, bw)" "k \<in> set (linesNeedingCheck w)" "\<not> widthOfLine w k > bw"
    "- 1 < widthOfLine w k"
  shows "longestSoFar w (k + 1) (bl, bw)"
  using assms unfolding longestSoFar_def
  by (auto simp: order.order_iff_strict)

lemma longestSoFar_step_skip:
  assumes "longestSoFar w k (bl, bw)" "k \<notin> set (linesNeedingCheck w)"
  shows "longestSoFar w (k + 1) (bl, bw)"
  using assms unfolding longestSoFar_def
  by (auto simp: order.order_iff_strict)

lemma longestLineLoop_result:
  assumes "getStartLineNumber w \<le> k" "e \<le> getEndLineNumber w" "k \<le> e + 1"
    and "\<forall>j \<in> set (linesNeedingCheck w). - 1 < widthOfLine w j"
    and "longestSoFar w k (bl, bw)"
  shows "\<exists>rl rw. longestLineLoop w k e (bl, bw) = Inr (rl, rw) \<and> longestSoFar w (e + 1) (rl, rw)"
  using assms
proof (induction w k e "(bl, bw)" arbitrary: bl bw rule: longestLineLoop.induct)
  case (1 w k e bl bw)
  show ?case
  proof (cases "k \<le> e")
    case False
    then have "k = e + 1" using 1(6) by simp
    then show ?thesis using False 1(8) by (simp add: longestLineLoop.simps)
  next
    case True
    then have inw: "getStartLineNumber w \<le> k" "k \<le> getEndLineNumber w"
      using 1(4,5) by auto
    define l where "l = rendLines w ! nat (k - rendLineNumberStart w)"
    have l: "getVisibleLine w k = Inr l"
      using inw by (simp add: getVisibleLine_in_window l_def)
    have wk: "widthOfLine w k = getWidth l"
      using inw by (simp add: widthOfLine_in_window l_def)
    have mem: "k \<in> set (linesNeedingCheck w) \<longleftrightarrow> needsMonospaceFontCheck l"
      using inw by (simp add: linesNeedingCheck_iff l_def)
    have k1: "k + 1 \<le> e + 1" using True by simp
    show ?thesis
    proof (cases "needsMonospaceFontCheck l")
      case needs: True
      show ?thesis
      proof (cases "getWidth l > bw")
        case longer: True
        have "longestSoFar w (k + 1) (k, getWidth l)"
          using longestSoFar_step_longer [OF 1(8)] mem needs longer wk by simp
        from 1(1) [OF True l needs refl longer _ 1(5) k1 1(7) this] inw
        show ?thesis using True l needs longer by (subst longestLineLoop.simps) simp
      next
        case shorter: False
        have "- 1 < widthOfLine w k" using 1(7) mem needs by blast
        then have "longestSoFar w (k + 1) (bl, bw)"
          using longestSoFar_step_shorter [OF 1(8)] mem needs shorter wk by simp
        from 1(2) [OF True l needs refl shorter _ 1(5) k1 1(7) this] inw
        show ?thesis using True l needs shorter by (subst longestLineLoop.simps) simp
      qed
    next
      case skip: False
      have "longestSoFar w (k + 1) (bl, bw)"
        using longestSoFar_step_skip [OF 1(8)] mem skip by simp
      from 1(3) [OF True l skip _ 1(5) k1 1(7) this] inw
      show ?thesis using True l skip by (subst longestLineLoop.simps) simp
    qed
  qed
qed

lemma updateVisibleLine_in_window:
  "getStartLineNumber w \<le> k \<Longrightarrow> k \<le> getEndLineNumber w \<Longrightarrow>
   updateVisibleLine w k f
     = Inr (w\<lparr>rendLines := (rendLines w)[nat (k - rendLineNumberStart w)
                                := f (rendLines w ! nat (k - rendLineNumberStart w))]\<rparr>)"
  by (simp add: updateVisibleLine_def getVisibleLine_in_window)

lemma invalidateLoop_result:
  assumes "getStartLineNumber w \<le> k" "e \<le> getEndLineNumber w"
  shows "\<exists>w'. invalidateLoop w k e = Inr w'
           \<and> rendLineNumberStart w' = rendLineNumberStart w
           \<and> length (rendLines w') = length (rendLines w)
           \<and> (\<forall>i < length (rendLines w).
                 rendLines w' ! i
                   = (if k \<le> rendLineNumberStart w + int i \<and> rendLineNumberStart w + int i \<le> e
                      then onMonospaceAssumptionsInvalidated (rendLines w ! i)
                      else rendLines w ! i))"
  using assms
proof (induction w k e rule: invalidateLoop.induct)
  case (1 w k e)
  show ?case
  proof (cases "k \<le> e")
    case False
    then show ?thesis by (auto simp: invalidateLoop.simps)
  next
    case True
    then have inw: "getStartLineNumber w \<le> k" "k \<le> getEndLineNumber w"
      using 1(2,3) by auto
    define w1 where "w1 = w\<lparr>rendLines := (rendLines w)[nat (k - rendLineNumberStart w)
          := onMonospaceAssumptionsInvalidated (rendLines w ! nat (k - rendLineNumberStart w))]\<rparr>"
    have u: "updateVisibleLine w k onMonospaceAssumptionsInvalidated = Inr w1"
      using inw by (simp add: updateVisibleLine_in_window w1_def)
    have same: "getStartLineNumber w1 = getStartLineNumber w" "getEndLineNumber w1 = getEndLineNumber w"
      "rendLineNumberStart w1 = rendLineNumberStart w" "length (rendLines w1) = length (rendLines w)"
      by (simp_all add: w1_def getStartLineNumber_def getEndLineNumber_def)
    have "getStartLineNumber w1 \<le> k + 1" "e \<le> getEndLineNumber w1"
      using inw 1(3) same by auto
    from 1(1) [OF True u this]
    obtain w' where w': "invalidateLoop w1 (k + 1) e = Inr w'"
      "rendLineNumberStart w' = rendLineNumberStart w1"
      "length (rendLines w') = length (rendLines w1)"
      "\<forall>i < length (rendLines w1).
                 rendLines w' ! i
                   = (if k + 1 \<le> rendLineNumberStart w1 + int i \<and> rendLineNumberStart w1 + int i \<le> e
                      then onMonospaceAssumptionsInvalidated (rendLines w1 ! i)
                      else rendLines w1 ! i)"
      by blast
    have r: "invalidateLoop w k e = Inr w'"
      using True u w'(1) by (subst invalidateLoop.simps) simp
    have nth: "rendLines w' ! i
                   = (if k \<le> rendLineNumberStart w + int i \<and> rendLineNumberStart w + int i \<le> e
                      then onMonospaceAssumptionsInvalidated (rendLines w ! i)
                      else rendLines w ! i)" if "i < length (rendLines w)" for i
    proof (cases "i = nat (k - rendLineNumberStart w)")
      case here: True
      then have "rendLineNumberStart w + int i = k"
        using inw by (simp add: getStartLineNumber_def)
      moreover have "rendLines w1 ! i = onMonospaceAssumptionsInvalidated (rendLines w ! i)"
        using that here by (simp add: w1_def)
      ultimately show ?thesis using w'(4) that same True by simp
    next
      case other: False
      then have "rendLineNumberStart w + int i \<noteq> k"
        by auto
      moreover have "rendLines w1 ! i = rendLines w ! i"
        using that other by (simp add: w1_def)
      ultimately show ?thesis using w'(4) that same by auto
    qed
    show ?thesis using r w'(2,3) same nth by auto
  qed
qed

lemma invalidateLoop_window:
  "\<exists>w'. invalidateLoop w (getStartLineNumber w) (getEndLineNumber w) = Inr w'
         \<and> rendLineNumberStart w' = rendLineNumberStart w
         \<and> rendLines w' = map onMonospaceAssumptionsInvalidated (rendLines w)"
proof -
  obtain w' where w': "invalidateLoop w (getStartLineNumber w) (getEndLineNumber w) = Inr w'"
    "rendLineNumberStart w' = rendLineNumberStart w"
    "length (rendLines w') = length (rendLines w)"
    "\<forall>i < length (rendLines w).
                 rendLines w' ! i
                   = (if getStartLineNumber w \<le> rendLineNumberStart w + int i
                         \<and> rendLineNumberStart w + int i \<le> getEndLineNumber w
                      then onMonospaceAssumptionsInvalidated (rendLines w ! i)
                      else rendLines w ! i)"
    using invalidateLoop_result [of w "getStartLineNumber w" "getEndLineNumber w"] by auto
  have "rendLines w' = map onMonospaceAssumptionsInvalidated (rendLines w)"
  proof (rule nth_equalityI)
    show "length (rendLines w') = length (map onMonospaceAssumptionsInvalidated (rendLines w))"
      using w'(3) by simp
  next
    fix i assume "i < length (rendLines w')"
    then have i: "i < length (rendLines w)" using w'(3) by simp
    then have "getStartLineNumber w \<le> rendLineNumberStart w + int i
                         \<and> rendLineNumberStart w + int i \<le> getEndLineNumber w"
      by (simp add: getStartLineNumber_def getEndLineNumber_def)
    then show "rendLines w' ! i = map onMonospaceAssumptionsInvalidated (rendLines w) ! i"
      using w'(4) i by simp
  qed
  then show ?thesis using w'(1,2) by blast
qed

lemma widthOfLine_nonneg:
  assumes "widthsNonNegative w" "j \<in> set (linesNeedingCheck w)"
  shows "- 1 < widthOfLine w j"
proof -
  have inw: "getStartLineNumber w \<le> j" "j \<le> getEndLineNumber w"
    using assms(2) by (simp_all add: linesNeedingCheck_iff)
  then have "nat (j - rendLineNumberStart w) < length (rendLines w)"
    by (simp add: getStartLineNumber_def getEndLineNumber_def)
  then have "0 \<le> getWidth (rendLines w ! nat (j - rendLineNumberStart w))"
    using assms(1) by (simp add: widthsNonNegative_def list_all_length)
  then show ?thesis using inw by (simp add: widthOfLine_in_window)
qed

lemma longestLine_of_window:
  assumes "1 \<le> getStartLineNumber w" "widthsNonNegative w"
  shows "\<exists>rl rw. longestLineLoop w (getStartLineNumber w) (getEndLineNumber w) (- 1, - 1) = Inr (rl, rw)
     \<and> (if linesNeedingCheck w = [] then rl = - 1
         else rl \<noteq> - 1 \<and> rl \<in> set (linesNeedingCheck w) \<and> rw = widthOfLine w rl
              \<and> (\<forall>j \<in> set (linesNeedingCheck w).
                    widthOfLine w j \<le> rw \<and> (j < rl \<longrightarrow> widthOfLine w j < rw)))"
proof (cases "getStartLineNumber w \<le> getEndLineNumber w + 1")
  case True
  have init: "longestSoFar w (getStartLineNumber w) (- 1, - 1)"
    by (simp add: longestSoFar_def linesNeedingCheck_iff)
  have pos: "\<forall>j \<in> set (linesNeedingCheck w). - 1 < widthOfLine w j"
    using widthOfLine_nonneg [OF assms(2)] by blast
  obtain rl rw where r: "longestLineLoop w (getStartLineNumber w) (getEndLineNumber w) (- 1, - 1) = Inr (rl, rw)"
    and inv: "longestSoFar w (getEndLineNumber w + 1) (rl, rw)"
    using longestLineLoop_result [OF order_refl order_refl True pos init] by blast
  have below: "j < getEndLineNumber w + 1" if "j \<in> set (linesNeedingCheck w)" for j
    using that by (simp add: linesNeedingCheck_iff)
  have notm1: "j \<noteq> - 1" if "j \<in> set (linesNeedingCheck w)" for j
    using that assms(1) by (auto simp: linesNeedingCheck_iff)
  show ?thesis
  proof (cases "linesNeedingCheck w = []")
    case Nil: True
    then show ?thesis using r inv by (simp add: longestSoFar_def)
  next
    case nonempty: False
    then obtain j0 where "j0 \<in> set (linesNeedingCheck w)" by (cases "linesNeedingCheck w") auto
    then have "\<not> (\<forall>j \<in> set (linesNeedingCheck w). getEndLineNumber w + 1 \<le> j)"
      using below by fastforce
    then have "rl \<in> set (linesNeedingCheck w) \<and> rw = widthOfLine w rl
       \<and> (\<forall>j \<in> set (linesNeedingCheck w). j < getEndLineNumber w + 1 \<longrightarrow>
                   widthOfLine w j \<le> rw \<and> (j < rl \<longrightarrow> widthOfLine w j < rw))"
      using inv unfolding longestSoFar_def by auto
    then show ?thesis using r nonempty below notm1 by auto
  qed
next
  case False
  then have "\<not> getStartLineNumber w \<le> getEndLineNumber w" by simp
  moreover from this have "linesNeedingCheck w = []"
    by (simp add: linesNeedingCheck_def)
  ultimately show ?thesis by (simp add: longestLineLoop.simps)
qed

text \<open>
  Claim monospace_check_widest_line. In a window that starts at line 1 or later and whose lines report widths that
  are not negative, \<open>_checkMonospaceFontAssumptions\<close> does nothing when no line of the
  window needs the check. Otherwise it validates exactly one line, which needs the check
  and is the first of the widest such lines; if that line is valid nothing changes, and if
  it is not, every line of the window is invalidated.
\<close>

theorem monospace_check_widest_line:
  assumes "1 \<le> getStartLineNumber (visibleLines st)"
    and "widthsNonNegative (visibleLines st)"
  shows "(linesNeedingCheck (visibleLines st) = [] \<longrightarrow>
            checkMonospaceFontAssumptions st = Inr (st, []))
       \<and> (linesNeedingCheck (visibleLines st) \<noteq> [] \<longrightarrow>
            (\<exists>n l. n \<in> set (linesNeedingCheck (visibleLines st))
               \<and> getVisibleLine (visibleLines st) n = Inr l
               \<and> (\<forall>j \<in> set (linesNeedingCheck (visibleLines st)).
                     widthOfLine (visibleLines st) j \<le> getWidth l
                     \<and> (j < n \<longrightarrow> widthOfLine (visibleLines st) j < getWidth l))
               \<and> (monospaceAssumptionsAreValid l \<longrightarrow>
                     checkMonospaceFontAssumptions st = Inr (st, [n]))
               \<and> (\<not> monospaceAssumptionsAreValid l \<longrightarrow>
                     checkMonospaceFontAssumptions st
                       = Inr (st\<lparr>visibleLines := (visibleLines st)
                                 \<lparr>rendLines := map onMonospaceAssumptionsInvalidated
                                                 (rendLines (visibleLines st))\<rparr>\<rparr>, [n]))))"
proof -
  define w where "w = visibleLines st"
  obtain rl rw where r: "longestLineLoop w (getStartLineNumber w) (getEndLineNumber w) (- 1, - 1) = Inr (rl, rw)"
    and p: "if linesNeedingCheck w = [] then rl = - 1
         else rl \<noteq> - 1 \<and> rl \<in> set (linesNeedingCheck w) \<and> rw = widthOfLine w rl
              \<and> (\<forall>j \<in> set (linesNeedingCheck w).
                    widthOfLine w j \<le> rw \<and> (j < rl \<longrightarrow> widthOfLine w j < rw))"
    using longestLine_of_window [of w] assms unfolding w_def by blast
  show ?thesis
  proof (cases "linesNeedingCheck w = []")
    case True
    then show ?thesis using r p
      by (simp add: checkMonospaceFontAssumptions_def w_def [symmetric])
  next
    case False
    then have rl: "rl \<noteq> - 1" "rl \<in> set (linesNeedingCheck w)" "rw = widthOfLine w rl"
      "\<forall>j \<in> set (linesNeedingCheck w). widthOfLine w j \<le> rw \<and> (j < rl \<longrightarrow> widthOfLine w j < rw)"
      using p by auto
    have inw: "getStartLineNumber w \<le> rl" "rl \<le> getEndLineNumber w"
      using rl(2) by (simp_all add: linesNeedingCheck_iff)
    define l where "l = rendLines w ! nat (rl - rendLineNumberStart w)"
    have l: "getVisibleLine w rl = Inr l"
      using inw by (simp add: getVisibleLine_in_window l_def)
    have wl: "rw = getWidth l"
      using inw rl(3) by (simp add: widthOfLine_in_window l_def)
    obtain w' where w': "invalidateLoop w (getStartLineNumber w) (getEndLineNumber w) = Inr w'"
      "rendLineNumberStart w' = rendLineNumberStart w"
      "rendLines w' = map onMonospaceAssumptionsInvalidated (rendLines w)"
      using invalidateLoop_window by blast
    have "w' = w\<lparr>rendLines := map onMonospaceAssumptionsInvalidated (rendLines w)\<rparr>"
      using w'(2,3) by (intro VisibleLinesCollection.equality) simp_all
    then have inv: "invalidateLoop w (getStartLineNumber w) (getEndLineNumber w)
       = Inr (w\<lparr>rendLines := map onMonospaceAssumptionsInvalidated (rendLines w)\<rparr>)"
      using w'(1) by simp
    have valid: "monospaceAssumptionsAreValid l \<longrightarrow> checkMonospaceFontAssumptions st = Inr (st, [rl])"
      using r rl(1) l by (simp add: checkMonospaceFontAssumptions_def w_def [symmetric])
    have invalid: "\<not> monospaceAssumptionsAreValid l \<longrightarrow> checkMonospaceFontAssumptions st
        = Inr (st\<lparr>visibleLines := w\<lparr>rendLines := map onMonospaceAssumptionsInvalidated (rendLines w)\<rparr>\<rparr>, [rl])"
      using r rl(1) l inv by (simp add: checkMonospaceFontAssumptions_def w_def [symmetric])
    show ?thesis
      using False rl(2,4) l wl valid invalid unfolding w_def by blast
  qed
qed

theorem monospace_check_witness:
  "1 \<le> getStartLineNumber (visibleLines exState)
   \<and> widthsNonNegative (visibleLines exState)
   \<and> linesNeedingCheck (visibleLines exState) = [1, 2]
   \<and> checkMonospaceFontAssumptions exState = Inr (exInvalidated, [2])"
  using monospace_check_widest_line [of exState]
  by (simp add: checkMonospaceFontAssumptions_def longestLineLoop.simps invalidateLoop.simps
      updateVisibleLine_def onMonospaceAssumptionsInvalidated_def exInvalidated_def
      widthsNonNegative_def linesNeedingCheck_def upto.simps window_defs)

lemma ensureMaxLineWidth_max:
  "maxLineWidth (ensureMaxLineWidth lineWidth st) = max (maxLineWidth st) \<lceil>lineWidth\<rceil>"
  by (simp add: ensureMaxLineWidth_def Let_def)

lemma ensureMaxLineWidth_sequence:
  "maxLineWidth st \<le> maxLineWidth (foldl (\<lambda>s lineWidth. ensureMaxLineWidth lineWidth s) st ws)"
proof (induction ws arbitrary: st)
  case Nil
  show ?case by simp
next
  case (Cons x ws)
  have "maxLineWidth st \<le> maxLineWidth (ensureMaxLineWidth x st)"
    by (rule ensureMaxLineWidth_ge_old)
  also have "\<dots> \<le> maxLineWidth (foldl (\<lambda>s lineWidth. ensureMaxLineWidth lineWidth s)
                                  (ensureMaxLineWidth x st) ws)"
    by (rule Cons.IH)
  finally show ?case by simp
qed

lemma longestLineLoop_total:
  assumes "getStartLineNumber w \<le> k" "e \<le> getEndLineNumber w"
    and "bl = - 1 \<or> (getStartLineNumber w \<le> bl \<and> bl \<le> getEndLineNumber w)"
  shows "\<exists>rl rw. longestLineLoop w k e (bl, bw) = Inr (rl, rw)
           \<and> (rl = - 1 \<or> (getStartLineNumber w \<le> rl \<and> rl \<le> getEndLineNumber w))"
  using assms
proof (induction w k e "(bl, bw)" arbitrary: bl bw rule: longestLineLoop.induct)
  case (1 w k e bl bw)
  show ?case
  proof (cases "k \<le> e")
    case False
    then show ?thesis using 1(6) by (simp add: longestLineLoop.simps)
  next
    case True
    then have inw: "getStartLineNumber w \<le> k" "k \<le> getEndLineNumber w"
      using 1(4,5) by auto
    then obtain l where l: "getVisibleLine w k = Inr l"
      using getVisibleLine_in_window by blast
    have k1: "getStartLineNumber w \<le> k + 1" using inw by simp
    show ?thesis
    proof (cases "needsMonospaceFontCheck l")
      case needs: True
      show ?thesis
      proof (cases "getWidth l > bw")
        case longer: True
        from 1(1) [OF True l needs refl longer k1 1(5)] inw
        show ?thesis using True l needs longer by (subst longestLineLoop.simps) simp
      next
        case shorter: False
        from 1(2) [OF True l needs refl shorter k1 1(5) 1(6)]
        show ?thesis using True l needs shorter by (subst longestLineLoop.simps) simp
      qed
    next
      case skip: False
      from 1(3) [OF True l skip k1 1(5) 1(6)]
      show ?thesis using True l skip by (subst longestLineLoop.simps) simp
    qed
  qed
qed

lemma checkMonospaceFontAssumptions_total:
  "\<exists>st' validated. checkMonospaceFontAssumptions st = Inr (st', validated)
      \<and> maxLineWidth st' = maxLineWidth st
      \<and> setMaxLineWidthCalls st' = setMaxLineWidthCalls st"
proof -
  define w where "w = visibleLines st"
  obtain rl rw where r: "longestLineLoop w (getStartLineNumber w) (getEndLineNumber w) (- 1, - 1) = Inr (rl, rw)"
    and p: "rl = - 1 \<or> (getStartLineNumber w \<le> rl \<and> rl \<le> getEndLineNumber w)"
    using longestLineLoop_total [of w "getStartLineNumber w" "getEndLineNumber w" "- 1" "- 1"] by auto
  show ?thesis
  proof (cases "rl = - 1")
    case True
    then show ?thesis using r by (simp add: checkMonospaceFontAssumptions_def w_def [symmetric])
  next
    case False
    then obtain l where l: "getVisibleLine w rl = Inr l"
      using p getVisibleLine_in_window by blast
    obtain w' where w': "invalidateLoop w (getStartLineNumber w) (getEndLineNumber w) = Inr w'"
      using invalidateLoop_window by blast
    show ?thesis using r False l w'
      by (simp add: checkMonospaceFontAssumptions_def w_def [symmetric])
  qed
qed

lemma step_total: "\<exists>st'. step c st = Inr st'"
proof (cases c)
  case (UpdateLineWidths vm fast)
  then show ?thesis using updateLineWidths'_ge_1 [of vm fast st] by auto
next
  case CheckMonospaceFontAssumptions
  then show ?thesis using checkMonospaceFontAssumptions_total [of st] by auto
qed simp_all

lemma runCalls_total: "\<exists>st'. runCalls cs st = Inr st'"
proof (induction cs arbitrary: st)
  case Nil
  show ?case by simp
next
  case (Cons c cs)
  obtain st1 where "step c st = Inr st1" using step_total by blast
  then show ?case using Cons.IH [of st1] by simp
qed

lemma runCalls_snoc:
  "runCalls (cs @ [c]) st = (case runCalls cs st of Inl err \<Rightarrow> Inl err | Inr st1 \<Rightarrow> step c st1)"
  by (induction cs arbitrary: st) (auto split: sum.splits)

lemma step_update_ge_1:
  "step (UpdateLineWidths vm fast) st = Inr st' \<Longrightarrow> 1 \<le> maxLineWidth st'"
  using updateLineWidths'_ge_1 [of vm fast st] by auto

lemma step_keeps_or_raises:
  assumes "step c st = Inr st'" "\<not> isOnFlushed c" "\<not> isUpdateLineWidths c"
  shows "maxLineWidth st \<le> maxLineWidth st'"
proof (cases c)
  case (EnsureMaxLineWidth x)
  then show ?thesis using assms(1) ensureMaxLineWidth_ge_old [of st x] by auto
next
  case CheckMonospaceFontAssumptions
  then show ?thesis using assms(1) checkMonospaceFontAssumptions_total [of st] by auto
next
  case OnZonesChanged
  then show ?thesis using assms(1) by (auto simp: onZonesChanged_def)
next
  case (WindowChanged w)
  then show ?thesis using assms(1) by auto
qed (use assms in simp_all)

lemma callsSinceFlush_snoc:
  "callsSinceFlush (cs @ [c]) = (if isOnFlushed c then [] else callsSinceFlush cs @ [c])"
  by (simp add: callsSinceFlush_def)

lemma zero_only_before_update:
  assumes "runCalls cs st = Inr st'" "maxLineWidth st' < 1"
  shows "list_all (\<lambda>c. \<not> isUpdateLineWidths c) (callsSinceFlush cs)
       \<and> (1 \<le> maxLineWidth st \<longrightarrow> list_ex isOnFlushed cs)"
  using assms
proof (induction cs arbitrary: st' rule: rev_induct)
  case Nil
  then show ?case by (simp add: callsSinceFlush_def)
next
  case (snoc c cs)
  obtain st1 where st1: "runCalls cs st = Inr st1" using runCalls_total by blast
  then have c: "step c st1 = Inr st'" using snoc.prems(1) by (simp add: runCalls_snoc)
  show ?case
  proof (cases "isOnFlushed c")
    case True
    then show ?thesis by (simp add: callsSinceFlush_snoc)
  next
    case noflush: False
    have noupd: "\<not> isUpdateLineWidths c"
    proof
      assume "isUpdateLineWidths c"
      then obtain vm fast where "c = UpdateLineWidths vm fast" by (cases c) auto
      then have "1 \<le> maxLineWidth st'" using c step_update_ge_1 by blast
      then show False using snoc.prems(2) by simp
    qed
    have "maxLineWidth st1 \<le> maxLineWidth st'"
      using step_keeps_or_raises [OF c noflush noupd] .
    then have "maxLineWidth st1 < 1" using snoc.prems(2) by simp
    from snoc.IH [OF st1 this] show ?thesis
      using noflush noupd by (simp add: callsSinceFlush_snoc)
  qed
qed

lemma updateLineWidthsLoop_bounded:
  assumes "getStartLineNumber w \<le> k" "e \<le> getEndLineNumber w" "m0 \<le> b"
    and "list_all (\<lambda>l. getWidth l \<le> b) (rendLines w)"
    and "updateLineWidthsLoop w fast k e (m0, a0) = Inr (m, a)"
  shows "m \<le> b"
  using assms
proof (induction w fast k e "(m0, a0)" arbitrary: m0 a0 rule: updateLineWidthsLoop.induct)
  case (1 w fast k e m0 a0)
  show ?case
  proof (cases "k \<le> e")
    case False
    then show ?thesis using 1(5,7) by (simp add: updateLineWidthsLoop.simps)
  next
    case True
    then have inw: "getStartLineNumber w \<le> k" "k \<le> getEndLineNumber w"
      using 1(3,4) by auto
    define l where "l = rendLines w ! nat (k - rendLineNumberStart w)"
    have l: "getVisibleLine w k = Inr l"
      using inw by (simp add: getVisibleLine_in_window l_def)
    have "nat (k - rendLineNumberStart w) < length (rendLines w)"
      using inw by (simp add: getStartLineNumber_def getEndLineNumber_def)
    then have lb: "getWidth l \<le> b"
      using 1(6) by (simp add: list_all_length l_def)
    have k1: "getStartLineNumber w \<le> k + 1" using inw by simp
    show ?thesis
    proof (cases "fast \<and> \<not> getWidthIsFast l")
      case skip: True
      have "updateLineWidthsLoop w fast (k + 1) e (m0, False) = Inr (m, a)"
        using 1(7) True l skip by (subst (asm) updateLineWidthsLoop.simps) simp
      from 1(1) [OF True l skip k1 1(4) 1(5) 1(6) this] show ?thesis .
    next
      case noskip: False
      have "updateLineWidthsLoop w fast (k + 1) e (max m0 (getWidth l), a0) = Inr (m, a)"
        using 1(7) True l noskip by (subst (asm) updateLineWidthsLoop.simps) auto
      moreover have "max m0 (getWidth l) \<le> b" using 1(5) lb by simp
      ultimately show ?thesis using 1(2) [OF True l noskip k1 1(4) _ 1(6)] by blast
    qed
  qed
qed

lemma updateLineWidths'_all_small:
  assumes "list_all (\<lambda>l. getWidth l \<le> 1) (rendLines (visibleLines st))" "maxLineWidth st \<le> 1"
  shows "\<exists>a st'. updateLineWidths' vm fast st = Inr (a, st') \<and> maxLineWidth st' = 1"
proof -
  obtain m a where loop: "updateLineWidthsLoop (visibleLines st) fast (getStartLineNumber (visibleLines st))
            (getEndLineNumber (visibleLines st)) (1, True) = Inr (m, a)" and m: "1 \<le> m" and
    r: "updateLineWidths' vm fast st
         = Inr (a, ensureMaxLineWidth m
                     (if a \<and> getStartLineNumber (visibleLines st) = 1
                         \<and> getEndLineNumber (visibleLines st) = getLineCount vm
                      then st\<lparr>maxLineWidth := 0\<rparr> else st))"
    using updateLineWidths'_result [of st fast vm] by blast
  have "m \<le> 1"
    using updateLineWidthsLoop_bounded [OF order_refl order_refl _ assms(1) loop] by simp
  then have "m = 1" using m by simp
  then show ?thesis using r assms(2) by (auto simp: ensureMaxLineWidth_max)
qed

lemma step_decrease:
  assumes "step c st = Inr st'" "maxLineWidth st' < maxLineWidth st"
  shows "isOnFlushed c
       \<or> (\<exists>vm fast m. c = UpdateLineWidths vm fast
             \<and> getStartLineNumber (visibleLines st) = 1
             \<and> getEndLineNumber (visibleLines st) = getLineCount vm
             \<and> updateLineWidthsLoop (visibleLines st) fast 1 (getLineCount vm) (1, True)
                 = Inr (m, True)
             \<and> st' = ensureMaxLineWidth m (st\<lparr>maxLineWidth := 0\<rparr>))"
proof (cases "isOnFlushed c \<or> isUpdateLineWidths c")
  case False
  then have "maxLineWidth st \<le> maxLineWidth st'"
    using step_keeps_or_raises [OF assms(1)] by blast
  then show ?thesis using assms(2) by simp
next
  case True
  show ?thesis
  proof (cases "isOnFlushed c")
    case True
    then show ?thesis by simp
  next
    case False
    then obtain vm fast where c: "c = UpdateLineWidths vm fast"
      using True by (cases c) auto
    obtain m a where loop: "updateLineWidthsLoop (visibleLines st) fast (getStartLineNumber (visibleLines st))
            (getEndLineNumber (visibleLines st)) (1, True) = Inr (m, a)" and
      r: "updateLineWidths' vm fast st
         = Inr (a, ensureMaxLineWidth m
                     (if a \<and> getStartLineNumber (visibleLines st) = 1
                         \<and> getEndLineNumber (visibleLines st) = getLineCount vm
                      then st\<lparr>maxLineWidth := 0\<rparr> else st))"
      using updateLineWidths'_result [of st fast vm] by blast
    have st': "st' = ensureMaxLineWidth m
                     (if a \<and> getStartLineNumber (visibleLines st) = 1
                         \<and> getEndLineNumber (visibleLines st) = getLineCount vm
                      then st\<lparr>maxLineWidth := 0\<rparr> else st)"
      using assms(1) c r by simp
    have full: "a \<and> getStartLineNumber (visibleLines st) = 1
                         \<and> getEndLineNumber (visibleLines st) = getLineCount vm"
    proof (rule ccontr)
      assume "\<not> ?thesis"
      then have "st' = ensureMaxLineWidth m st" using st' by auto
      then have "maxLineWidth st \<le> maxLineWidth st'" by (simp add: ensureMaxLineWidth_ge_old)
      then show False using assms(2) by simp
    qed
    then show ?thesis using c loop st' by auto
  qed
qed

text \<open>
  Claim max_line_width_changes. Along any sequence of \<open>_ensureMaxLineWidth\<close> calls \<open>maxLineWidth\<close> does not
  decrease: each call leaves the maximum of the old value and the ceiling of the
  candidate, and calls \<open>setMaxLineWidth\<close> exactly when that ceiling is above the old value.
  \<open>onFlushed\<close> sets it to 0. A call that makes it smaller is \<open>onFlushed\<close> or a width update
  over the whole document (window from line 1 to the line count, all widths computed),
  which gives what \<open>_ensureMaxLineWidth\<close> makes of the observed maximum starting from 0.
\<close>

theorem max_line_width_changes:
  "maxLineWidth st \<le> maxLineWidth (foldl (\<lambda>s lineWidth. ensureMaxLineWidth lineWidth s) st ws)
   \<and> maxLineWidth (ensureMaxLineWidth lineWidth st) = max (maxLineWidth st) \<lceil>lineWidth\<rceil>
   \<and> setMaxLineWidthCalls (ensureMaxLineWidth lineWidth st)
       = (if maxLineWidth st < \<lceil>lineWidth\<rceil> then setMaxLineWidthCalls st @ [\<lceil>lineWidth\<rceil>]
          else setMaxLineWidthCalls st)
   \<and> maxLineWidth (snd (onFlushed f st)) = 0
   \<and> (step c st = Inr st' \<and> maxLineWidth st' < maxLineWidth st \<longrightarrow>
        isOnFlushed c
        \<or> (\<exists>vm fast m. c = UpdateLineWidths vm fast
              \<and> getStartLineNumber (visibleLines st) = 1
              \<and> getEndLineNumber (visibleLines st) = getLineCount vm
              \<and> updateLineWidthsLoop (visibleLines st) fast 1 (getLineCount vm) (1, True)
                  = Inr (m, True)
              \<and> st' = ensureMaxLineWidth m (st\<lparr>maxLineWidth := 0\<rparr>)))"
proof (intro conjI impI)
  show "maxLineWidth st \<le> maxLineWidth (foldl (\<lambda>s lineWidth. ensureMaxLineWidth lineWidth s) st ws)"
    by (rule ensureMaxLineWidth_sequence)
  show "maxLineWidth (ensureMaxLineWidth lineWidth st) = max (maxLineWidth st) \<lceil>lineWidth\<rceil>"
    by (rule ensureMaxLineWidth_max)
  show "setMaxLineWidthCalls (ensureMaxLineWidth lineWidth st)
       = (if maxLineWidth st < \<lceil>lineWidth\<rceil> then setMaxLineWidthCalls st @ [\<lceil>lineWidth\<rceil>]
          else setMaxLineWidthCalls st)"
    by (simp add: ensureMaxLineWidth_def Let_def)
  show "maxLineWidth (snd (onFlushed f st)) = 0"
    by (simp add: onFlushed_def split: prod.splits)
next
  assume "step c st = Inr st' \<and> maxLineWidth st' < maxLineWidth st"
  then show "isOnFlushed c
        \<or> (\<exists>vm fast m. c = UpdateLineWidths vm fast
              \<and> getStartLineNumber (visibleLines st) = 1
              \<and> getEndLineNumber (visibleLines st) = getLineCount vm
              \<and> updateLineWidthsLoop (visibleLines st) fast 1 (getLineCount vm) (1, True)
                  = Inr (m, True)
              \<and> st' = ensureMaxLineWidth m (st\<lparr>maxLineWidth := 0\<rparr>))"
    using step_decrease by blast
qed

theorem max_line_width_witness:
  "step (UpdateLineWidths exViewModel False) exWideState = Inr exMeasuredState
   \<and> maxLineWidth exMeasuredState < maxLineWidth exWideState
   \<and> getStartLineNumber (visibleLines exWideState) = 1
   \<and> getEndLineNumber (visibleLines exWideState) = getLineCount exViewModel
   \<and> updateLineWidthsLoop (visibleLines exWideState) False 1 (getLineCount exViewModel) (1, True)
        = Inr (842, True)
   \<and> exMeasuredState = ensureMaxLineWidth 842 (exWideState\<lparr>maxLineWidth := 0\<rparr>)
   \<and> maxLineWidth (foldl (\<lambda>s lineWidth. ensureMaxLineWidth lineWidth s) exState [3 / 2, 1, 7])
        = 7"
  using max_line_width_changes [where st = exWideState and c = "UpdateLineWidths exViewModel False"
      and st' = exMeasuredState]
  by (simp add: updateLineWidths'_def updateLineWidthsLoop.simps ensureMaxLineWidth_def
       exWideState_def exMeasuredState_def window_defs)

text \<open>
  Claim update_line_widths_at_least_one. \<open>_updateLineWidths\<close> never throws and leaves \<open>maxLineWidth\<close> at 1 or more,
  and at exactly 1 when no line of the window is wider than 1 and the old value was at
  most 1. After any sequence of calls, a \<open>maxLineWidth\<close> below 1 means that no width
  update ran after the last \<open>onFlushed\<close> (or at all, if there was none), and if the value
  was 1 or more at the start, that there was an \<open>onFlushed\<close>.
\<close>

theorem update_line_widths_at_least_one:
  "(\<exists>allWidthsComputed st'. updateLineWidths' vm fast st = Inr (allWidthsComputed, st')
        \<and> 1 \<le> maxLineWidth st'
        \<and> (list_all (\<lambda>l. getWidth l \<le> 1) (rendLines (visibleLines st)) \<and> maxLineWidth st \<le> 1
             \<longrightarrow> maxLineWidth st' = 1))
   \<and> (\<exists>st'. runCalls cs st = Inr st'
        \<and> (maxLineWidth st' < 1 \<longrightarrow>
              list_all (\<lambda>c. \<not> isUpdateLineWidths c) (callsSinceFlush cs)
              \<and> (1 \<le> maxLineWidth st \<longrightarrow> list_ex isOnFlushed cs)))"
proof
  obtain a st' where r: "updateLineWidths' vm fast st = Inr (a, st')" "1 \<le> maxLineWidth st'"
    using updateLineWidths'_ge_1 by blast
  have "maxLineWidth st' = 1"
    if "list_all (\<lambda>l. getWidth l \<le> 1) (rendLines (visibleLines st)) \<and> maxLineWidth st \<le> 1"
    using updateLineWidths'_all_small [of st vm fast] that r(1) by auto
  then show "\<exists>allWidthsComputed st'. updateLineWidths' vm fast st = Inr (allWidthsComputed, st')
        \<and> 1 \<le> maxLineWidth st'
        \<and> (list_all (\<lambda>l. getWidth l \<le> 1) (rendLines (visibleLines st)) \<and> maxLineWidth st \<le> 1
             \<longrightarrow> maxLineWidth st' = 1)"
    using r by blast
next
  obtain st' where st': "runCalls cs st = Inr st'" using runCalls_total by blast
  then show "\<exists>st'. runCalls cs st = Inr st'
        \<and> (maxLineWidth st' < 1 \<longrightarrow>
              list_all (\<lambda>c. \<not> isUpdateLineWidths c) (callsSinceFlush cs)
              \<and> (1 \<le> maxLineWidth st \<longrightarrow> list_ex isOnFlushed cs))"
    using zero_only_before_update [OF st'] by blast
qed

theorem update_line_widths_witness:
  "runCalls [UpdateLineWidths exViewModel True, OnFlushed exFlush, CheckMonospaceFontAssumptions]
     exWideState = Inr exFlushedState
   \<and> maxLineWidth exFlushedState < 1
   \<and> 1 \<le> maxLineWidth exWideState
   \<and> callsSinceFlush
        [UpdateLineWidths exViewModel True, OnFlushed exFlush, CheckMonospaceFontAssumptions]
       = [CheckMonospaceFontAssumptions]
   \<and> rendLines (visibleLines exFlushedState) = []
   \<and> updateLineWidths' exViewModel True exFlushedState
       = Inr (True, exFlushedState\<lparr>maxLineWidth := 1, setMaxLineWidthCalls := [900, 842, 1]\<rparr>)"
  using update_line_widths_at_least_one [of exViewModel True exFlushedState
      "[UpdateLineWidths exViewModel True, OnFlushed exFlush, CheckMonospaceFontAssumptions]"]
    update_line_widths_at_least_one [of exViewModel True exWideState
      "[UpdateLineWidths exViewModel True, OnFlushed exFlush, CheckMonospaceFontAssumptions]"]
  by (simp add: updateLineWidths'_def updateLineWidthsLoop.simps ensureMaxLineWidth_def
       onFlushed_def exFlush_def checkMonospaceFontAssumptions_def longestLineLoop.simps
       callsSinceFlush_def exWideState_def exFlushedState_def window_defs)

end
